theory Spec2Isabelle
  imports Complex_Main "HOL-Library.Word" "HOL-Library.Log_Nat"
begin

unbundle bit_operations_syntax

section \<open>The GLSL scene renderer of \<^verbatim>\<open>src/Base/GLSLSceneRenderer.cpp\<close>\<close>

text \<open>
  A shallow embedding of \<^verbatim>\<open>GLSLSceneRendererImpl\<close>: the resource cache with its two
  generations, the traversal of the scene graph with the model matrix stack and the
  pick path, the deferred transparent pass, the picking pass, and the encoders of the
  mesh normals and of the texture images.

  What the embedding keeps and what it leaves out:
  \<^item> OpenGL itself is not modelled. Of the GL calls the model keeps the draw calls
    (\<^verbatim>\<open>glDrawArrays\<close> in \<^verbatim>\<open>drawVertexResource\<close>), recorded in the order they are issued
    in the field \<open>glCalls\<close>, and the choice between \<^verbatim>\<open>glTexSubImage2D\<close> and
    \<^verbatim>\<open>glTexImage2D\<close> in \<^verbatim>\<open>loadTextureImage\<close>. Shader uniforms, lights, fog, cull face,
    point size and line width change no field the model keeps.
  \<^item> A pointer to a scene object is its identity: a number. A \<^verbatim>\<open>new VertexResource\<close>
    takes the next free handle of the model's heap \<open>resources\<close>.
  \<^item> A C++ \<^verbatim>\<open>float\<close> is modelled as the real number it denotes; where the rounding of
    an operation matters (the packed normals, the decoding of a picked pixel) the
    rounding is written out.
  \<^item> \<^verbatim>\<open>Affine3\<close> is any type with a product and an identity.
\<close>

subsection \<open>Scene objects\<close>

type_synonym Vector3f = "real \<times> real \<times> real"

text \<open>
  The identity of an \<^verbatim>\<open>SgObject\<close>: an object of the scene graph, or a line set that
  \<^verbatim>\<open>writeMeshNormalsSub\<close> allocates to visualise normals (it belongs to no scene graph).
\<close>

datatype SgObject = SceneObject nat | NormalVisualization nat

record SgMaterial =
  transparency :: real

record SgMesh =
  meshObject :: nat
  vertices :: "Vector3f list option"
  triangleVertices :: "int list"
  normals :: "Vector3f list option"
  normalIndices :: "int list"

record SgShape =
  shapeNode :: nat
  mesh :: "SgMesh option"
  material :: "SgMaterial option"

text \<open>
  A point set or a line set as \<^verbatim>\<open>renderPlot\<close> sees it. The vertex array is kept by its
  size (0 when the array is absent or empty), the line list by \<^verbatim>\<open>numLines()\<close>.
\<close>

record SgPlot =
  plotNode :: SgObject
  plotNumVertices :: nat
  plotNumLines :: int

datatype 'm SgNode =
    Group nat "'m SgNode list"
  | Transform nat 'm "'m SgNode list"
  | Switch nat bool "'m SgNode list"
  | UnpickableGroup nat "'m SgNode list"
  | Shape SgShape
  | PointSet nat nat
  | LineSet nat nat int
  | Overlay nat "'m SgNode list"
  | OutlineGroup nat "'m SgNode list"
  | SimplifiedRenderingGroup nat "'m SgNode list"

text \<open>
  Modelled from the spec: the accessors of \<^verbatim>\<open>SgMesh\<close> and \<^verbatim>\<open>SgPlot\<close> are declared in the
  scene library, outside \<^verbatim>\<open>src/\<close>. The spec's data model gives a mesh a vertex array and a
  per-face index list of triangles; \<^verbatim>\<open>hasVertices\<close> holds of a vertex array that is
  present and not empty, a triangle is three consecutive indices.
\<close>

definition hasVertices :: "SgMesh \<Rightarrow> bool" where
  "hasVertices m = (case vertices m of None \<Rightarrow> False | Some vs \<Rightarrow> vs \<noteq> [])"

definition numTriangles :: "SgMesh \<Rightarrow> nat" where
  "numTriangles m = length (triangleVertices m) div 3"

definition plotHasVertices :: "SgPlot \<Rightarrow> bool" where
  "plotHasVertices p = (0 < plotNumVertices p)"

subsection \<open>Resources\<close>

text \<open>
  The line set of a resource's \<^verbatim>\<open>normalVisualization\<close> is always one that
  \<^verbatim>\<open>writeMeshNormalsSub\<close> has built: two vertices and one line for each face vertex. The
  field keeps what determines it, the identity of the line set and the number of its lines.
\<close>

record VertexResource =
  numVertices :: nat
  sceneObject :: SgObject
  normalVisualization :: "(nat \<times> nat) option"

definition normalVisualizationLineSet :: "nat \<times> nat \<Rightarrow> SgPlot" where
  "normalVisualizationLineSet g =
     \<lparr>plotNode = NormalVisualization (fst g), plotNumVertices = 2 * snd g,
      plotNumLines = int (snd g)\<rparr>"

record TextureResource =
  isLoaded :: bool
  isImageUpdateNeeded :: bool
  textureId :: nat
  samplerId :: nat
  width :: int
  height :: int
  numComponents :: int

record Image =
  imageWidth :: int
  imageHeight :: int
  imageNumComponents :: int

type_synonym GLResourceMap = "SgObject \<Rightarrow> nat option"

subsection \<open>The renderer's state\<close>

datatype ShaderProgram =
  NolightingProgram | SolidColorProgram | MinimumLightingProgram
  | PhongShadowLightingProgram | ShadowMapProgram

datatype primitiveMode = GL_TRIANGLES | GL_POINTS | GL_LINES

datatype drawable = ShapeDrawable SgShape | PlotDrawable SgPlot

text \<open>
  What \<open>glCalls\<close> records: a \<^verbatim>\<open>glDrawArrays\<close> of a vertex resource, with the node it is
  issued for, the resource, the primitive mode and the model matrix; and, as a history
  entry, each deferral of a shape to the transparent pass at the moment \<^verbatim>\<open>renderShape\<close>
  pushes its closure.
\<close>

datatype 'm glCall =
    GlDrawArrays drawable nat primitiveMode 'm
  | Deferred SgShape 'm "32 word"

record 'm Impl =
  currentProgram :: "ShaderProgram option"
  programStack :: "ShaderProgram option list"
  isActuallyRendering :: bool
  isPicking :: bool
  isRenderingShadowMap :: bool
  modelMatrixStack :: "'m list"
  postRenderingFunctions :: "((nat \<times> 'm SgNode list) \<times> 'm) list"
  transparentRenderingFunctions :: "(SgShape \<times> 'm \<times> 32 word) list"
  resourceMaps :: "int \<Rightarrow> GLResourceMap"
  currentResourceMapIndex :: int
  doUnusedResourceCheck :: bool
  isCheckingUnusedResources :: bool
  hasValidNextResourceMap :: bool
  isResourceClearRequested :: bool
  isNormalVisualizationEnabled :: bool
  currentNodePath :: "SgObject list"
  pickingNodePathList :: "SgObject list list"
  pickedNodePath :: "SgObject list"
  pickedPoint :: Vector3f
  solidColor :: Vector3f
  resources :: "nat \<Rightarrow> VertexResource option"
  nextHandle :: nat
  nextLineSet :: nat
  glCalls :: "'m glCall list"

text \<open>
  \<^verbatim>\<open>currentResourceMap\<close> and \<^verbatim>\<open>nextResourceMap\<close> point to
  \<^verbatim>\<open>resourceMaps[currentResourceMapIndex]\<close> and \<^verbatim>\<open>resourceMaps[1 - currentResourceMapIndex]\<close>:
  \<^verbatim>\<open>initialize\<close> and \<^verbatim>\<open>beginRendering\<close> set the three together.
\<close>

definition currentResourceMap :: "'m Impl \<Rightarrow> GLResourceMap" where
  "currentResourceMap s = resourceMaps s (currentResourceMapIndex s)"

definition nextResourceMap :: "'m Impl \<Rightarrow> GLResourceMap" where
  "nextResourceMap s = resourceMaps s (1 - currentResourceMapIndex s)"

text \<open>The state \<^verbatim>\<open>initialize\<close> and \<^verbatim>\<open>initializeGL\<close> leave, before the first frame.\<close>

definition initialize :: "'m Impl" where
  "initialize =
     \<lparr>currentProgram = None, programStack = [],
      isActuallyRendering = False, isPicking = False, isRenderingShadowMap = False,
      modelMatrixStack = [], postRenderingFunctions = [],
      transparentRenderingFunctions = [],
      resourceMaps = (\<lambda>i. Map.empty), currentResourceMapIndex = 0,
      doUnusedResourceCheck = True, isCheckingUnusedResources = False,
      hasValidNextResourceMap = False, isResourceClearRequested = True,
      isNormalVisualizationEnabled = False,
      currentNodePath = [], pickingNodePathList = [], pickedNodePath = [],
      pickedPoint = (0, 0, 0), solidColor = (0, 0, 0),
      resources = Map.empty, nextHandle = 0, nextLineSet = 0, glCalls = []\<rparr>"

subsection \<open>The resource cache\<close>

definition requestToClearResources :: "'m Impl \<Rightarrow> 'm Impl" where
  "requestToClearResources s = s\<lparr>isResourceClearRequested := True\<rparr>"

definition beginRendering :: "'m Impl \<Rightarrow> 'm Impl" where
  "beginRendering s =
     (let s1 = s\<lparr>isCheckingUnusedResources :=
                   (if isPicking s then False else doUnusedResourceCheck s)\<rparr>;
          s2 = (if isResourceClearRequested s1
                then s1\<lparr>resourceMaps := (resourceMaps s1)(0 := Map.empty, 1 := Map.empty),
                        hasValidNextResourceMap := False,
                        isCheckingUnusedResources := False,
                        isResourceClearRequested := False\<rparr>
                else s1)
      in if hasValidNextResourceMap s2
         then s2\<lparr>currentResourceMapIndex := 1 - currentResourceMapIndex s2,
                 hasValidNextResourceMap := False\<rparr>
         else s2)"

definition endRendering :: "'m Impl \<Rightarrow> 'm Impl" where
  "endRendering s =
     (if isCheckingUnusedResources s
      then s\<lparr>resourceMaps := (resourceMaps s)(currentResourceMapIndex s := Map.empty),
              hasValidNextResourceMap := True\<rparr>
      else s)"

text \<open>\<^verbatim>\<open>unordered_map::insert\<close> keeps the entry of a key that is already present.\<close>

definition mapInsert :: "GLResourceMap \<Rightarrow> SgObject \<Rightarrow> nat \<Rightarrow> GLResourceMap" where
  "mapInsert m k v = (case m k of None \<Rightarrow> m(k \<mapsto> v) | Some _ \<Rightarrow> m)"

definition getOrCreateVertexResource :: "SgObject \<Rightarrow> 'm Impl \<Rightarrow> nat \<times> 'm Impl" where
  "getOrCreateVertexResource obj s =
     (let (resource, s1) =
            (case currentResourceMap s obj of
               None \<Rightarrow>
                 (nextHandle s,
                  s\<lparr>resources := (resources s)(nextHandle s \<mapsto>
                        \<lparr>numVertices = 0, sceneObject = obj, normalVisualization = None\<rparr>),
                    nextHandle := nextHandle s + 1,
                    resourceMaps := (resourceMaps s)(currentResourceMapIndex s :=
                        mapInsert (currentResourceMap s) obj (nextHandle s))\<rparr>)
             | Some r \<Rightarrow> (r, s))
      in (resource,
          if isCheckingUnusedResources s1
          then s1\<lparr>resourceMaps := (resourceMaps s1)(1 - currentResourceMapIndex s1 :=
                      mapInsert (nextResourceMap s1) obj resource)\<rparr>
          else s1))"

definition enableUnusedResourceCheck :: "bool \<Rightarrow> 'm Impl \<Rightarrow> 'm Impl" where
  "enableUnusedResourceCheck on s =
     (let s1 = (if \<not> on
                then s\<lparr>resourceMaps :=
                         (resourceMaps s)(1 - currentResourceMapIndex s := Map.empty)\<rparr>
                else s)
      in s1\<lparr>doUnusedResourceCheck := on\<rparr>)"

text \<open>
  \<^verbatim>\<open>VertexResource::isValid\<close>, and the write of \<^verbatim>\<open>numVertices\<close> and of
  \<^verbatim>\<open>normalVisualization\<close> through the pointer.
\<close>

definition isValid :: "nat \<Rightarrow> 'm Impl \<Rightarrow> bool" where
  "isValid h s = (case resources s h of None \<Rightarrow> False | Some r \<Rightarrow> 0 < numVertices r)"

definition updateResource ::
  "nat \<Rightarrow> (VertexResource \<Rightarrow> VertexResource) \<Rightarrow> 'm Impl \<Rightarrow> 'm Impl" where
  "updateResource h f s = s\<lparr>resources := (resources s)(h := map_option f (resources s h))\<rparr>"

subsection \<open>Texture images\<close>

datatype texUpload = GlTexSubImage2D int int | GlTexImage2D int int

definition isSameSizeAs :: "TextureResource \<Rightarrow> Image \<Rightarrow> bool" where
  "isSameSizeAs r img =
     (width r = imageWidth img \<and> height r = imageHeight img
      \<and> numComponents r = imageNumComponents img)"

definition clear :: "TextureResource \<Rightarrow> TextureResource" where
  "clear r = (if isLoaded r then r\<lparr>textureId := 0, samplerId := 0, isLoaded := False\<rparr> else r)"

text \<open>
  \<^verbatim>\<open>loadTextureImage\<close> returns its boolean, the resource as it leaves it, and the upload
  it has issued: \<^verbatim>\<open>glTexSubImage2D\<close> into the storage the texture has, or
  \<^verbatim>\<open>glTexImage2D\<close>, which allocates storage anew (the image is first scaled when a side is
  not a power of two; the model keeps the image's own size).
\<close>

definition loadTextureImage ::
  "TextureResource \<Rightarrow> Image \<Rightarrow> bool \<times> TextureResource \<times> texUpload option" where
  "loadTextureImage resource img =
     (if imageNumComponents img \<notin> {1, 2, 3, 4}
      then (False, clear resource, None)
      else
        let r1 = resource\<lparr>numComponents := imageNumComponents img\<rparr>;
            w = imageWidth img;
            h = imageHeight img
        in if isLoaded r1 \<and> isSameSizeAs r1 img
           then (True, r1\<lparr>isImageUpdateNeeded := False\<rparr>, Some (GlTexSubImage2D w h))
           else (True,
                 r1\<lparr>isLoaded := True, width := w, height := h,
                    isImageUpdateNeeded := False\<rparr>,
                 Some (GlTexImage2D w h)))"

subsection \<open>Shader programs\<close>

text \<open>
  \<^verbatim>\<open>pushProgram\<close> saves the current program and makes the given one current;
  \<^verbatim>\<open>popProgram\<close> restores the saved one. Every \<^verbatim>\<open>popProgram\<close> of the source follows its
  \<^verbatim>\<open>pushProgram\<close>; on an empty stack (undefined in C++) the model leaves the state.
\<close>

definition pushProgram :: "ShaderProgram \<Rightarrow> 'm Impl \<Rightarrow> 'm Impl" where
  "pushProgram program s =
     s\<lparr>programStack := programStack s @ [currentProgram s], currentProgram := Some program\<rparr>"

definition popProgram :: "'m Impl \<Rightarrow> 'm Impl" where
  "popProgram s =
     (if programStack s = [] then s
      else s\<lparr>currentProgram := last (programStack s),
              programStack := butlast (programStack s)\<rparr>)"

subsection \<open>Pick identifiers\<close>

text \<open>
  \<^verbatim>\<open>setPickColor\<close> divides each of the three low bytes of the identifier by 255. The
  model keeps the quotient; the \<^verbatim>\<open>float\<close> that the \<^verbatim>\<open>Vector3f\<close> holds, and that a pixel
  drawn in this colour shows, is the binary32 number nearest to it (\<open>binary32\<close> below).
\<close>

definition setPickColor :: "32 word \<Rightarrow> 'm Impl \<Rightarrow> 'm Impl" where
  "setPickColor pid s =
     s\<lparr>solidColor :=
         (real (unat (pid AND 0xff)) / 255,
          real (unat (drop_bit 8 pid AND 0xff)) / 255,
          real (unat (drop_bit 16 pid AND 0xff)) / 255)\<rparr>"

definition pushPickId :: "SgObject \<Rightarrow> bool \<Rightarrow> 'm Impl \<Rightarrow> 32 word \<times> 'm Impl" where
  "pushPickId node doSetColor s =
     (if isPicking s
      then
        let pid = word_of_nat (length (pickingNodePathList s) + 1);
            s1 = s\<lparr>currentNodePath := currentNodePath s @ [node]\<rparr>;
            s2 = s1\<lparr>pickingNodePathList := pickingNodePathList s1 @ [currentNodePath s1]\<rparr>
        in (pid, if doSetColor then setPickColor pid s2 else s2)
      else (0, s))"

definition popPickId :: "'m Impl \<Rightarrow> 'm Impl" where
  "popPickId s =
     (if isPicking s then s\<lparr>currentNodePath := butlast (currentNodePath s)\<rparr> else s)"

subsection \<open>Drawing a vertex resource\<close>

definition drawVertexResource ::
  "drawable \<Rightarrow> nat \<Rightarrow> primitiveMode \<Rightarrow> 'm \<Rightarrow> 'm Impl \<Rightarrow> 'm Impl" where
  "drawVertexResource node resource mode position s =
     s\<lparr>glCalls := glCalls s @ [GlDrawArrays node resource mode position]\<rparr>"

text \<open>
  \<^verbatim>\<open>renderPlot\<close>; \<open>n\<close> is the size of the vertex array that \<^verbatim>\<open>getVertices()\<close> returns.
\<close>

definition renderPlot :: "SgPlot \<Rightarrow> primitiveMode \<Rightarrow> nat \<Rightarrow> 'm Impl \<Rightarrow> 'm Impl" where
  "renderPlot plot mode n s =
     (let (pid, s1) = pushPickId (plotNode plot) True s;
          (resource, s2) = getOrCreateVertexResource (plotNode plot) s1;
          s3 = (if \<not> isValid resource s2
                then updateResource resource (\<lambda>r. r\<lparr>numVertices := n\<rparr>) s2
                else s2);
          s4 = drawVertexResource (PlotDrawable plot) resource mode
                 (last (modelMatrixStack s3)) s3
      in popPickId s4)"

definition renderPointSet :: "SgPlot \<Rightarrow> 'm Impl \<Rightarrow> 'm Impl" where
  "renderPointSet pointSet s =
     (if \<not> plotHasVertices pointSet then s
      else
        let s1 = pushProgram SolidColorProgram s;
            s2 = renderPlot pointSet GL_POINTS (plotNumVertices pointSet) s1
        in popProgram s2)"

definition renderLineSet :: "SgPlot \<Rightarrow> 'm Impl \<Rightarrow> 'm Impl" where
  "renderLineSet lineSet s =
     (if isRenderingShadowMap s then s
      else if \<not> plotHasVertices lineSet \<or> plotNumLines lineSet \<le> 0 then s
      else
        let s1 = pushProgram SolidColorProgram s;
            s2 = renderPlot lineSet GL_LINES (nat (plotNumLines lineSet) * 2) s1
        in popProgram s2)"

subsection \<open>Shapes\<close>

text \<open>
  What \<^verbatim>\<open>writeMeshVertices\<close> leaves in the resource: the number of face vertices, and,
  when normals are visualised, a new line set with one line for each face vertex of
  each whole triangle. The buffers it fills are the subject of the encoders below.
\<close>

definition writeMeshVertices :: "SgMesh \<Rightarrow> nat \<Rightarrow> 'm Impl \<Rightarrow> 'm Impl" where
  "writeMeshVertices m resource s =
     (let s1 = updateResource resource
                 (\<lambda>r. r\<lparr>numVertices := length (triangleVertices m)\<rparr>) s
      in if isNormalVisualizationEnabled s1
         then (updateResource resource
                 (\<lambda>r. r\<lparr>normalVisualization := Some (nextLineSet s1, numTriangles m * 3)\<rparr>) s1)
              \<lparr>nextLineSet := nextLineSet s1 + 1\<rparr>
         else s1)"

text \<open>
  \<^verbatim>\<open>renderShapeMain\<close> reads \<^verbatim>\<open>shape->mesh()\<close> without a check: \<^verbatim>\<open>renderShape\<close> calls it,
  at once or from the deferred closure, only for a shape that has a mesh.
\<close>

definition renderShapeMain :: "SgShape \<Rightarrow> 'm \<Rightarrow> 32 word \<Rightarrow> 'm Impl \<Rightarrow> 'm Impl" where
  "renderShapeMain shape position pickId s =
     (case mesh shape of
        None \<Rightarrow> s
      | Some m \<Rightarrow>
          let s1 = (if isPicking s then setPickColor pickId s else s);
              (resource, s2) = getOrCreateVertexResource (SceneObject (meshObject m)) s1;
              s3 = (if \<not> isValid resource s2 then writeMeshVertices m resource s2 else s2);
              s4 = drawVertexResource (ShapeDrawable shape) resource GL_TRIANGLES position s3
          in if isNormalVisualizationEnabled s4 \<and> isActuallyRendering s4
             then (case Option.bind (resources s4 resource) normalVisualization of
                     None \<Rightarrow> s4
                   | Some g \<Rightarrow> renderLineSet (normalVisualizationLineSet g) s4)
             else s4)"

definition isTransparent :: "SgShape \<Rightarrow> bool" where
  "isTransparent shape =
     (case material shape of None \<Rightarrow> False | Some mat \<Rightarrow> 0 < transparency mat)"

definition renderShape :: "SgShape \<Rightarrow> 'm Impl \<Rightarrow> 'm Impl" where
  "renderShape shape s =
     (case mesh shape of
        None \<Rightarrow> s
      | Some m \<Rightarrow>
          if \<not> hasVertices m then s
          else if isTransparent shape
          then
            (if \<not> isRenderingShadowMap s
             then
               let position = last (modelMatrixStack s);
                   (pickId, s1) = pushPickId (SceneObject (shapeNode shape)) False s;
                   s2 = s1\<lparr>transparentRenderingFunctions :=
                            transparentRenderingFunctions s1 @ [(shape, position, pickId)],
                          glCalls := glCalls s1 @ [Deferred shape position pickId]\<rparr>
               in popPickId s2
             else s)
          else
            let (pickId, s1) = pushPickId (SceneObject (shapeNode shape)) False s;
                s2 = renderShapeMain shape (last (modelMatrixStack s1)) pickId s1
            in popPickId s2)"

subsection \<open>The traversal\<close>

text \<open>
  \<^verbatim>\<open>renderingFunctions.dispatch\<close> with the ten functions that \<^verbatim>\<open>initialize\<close> registers,
  \<^verbatim>\<open>renderChildNodes\<close> and \<^verbatim>\<open>renderGroup\<close>. The projection matrix that \<^verbatim>\<open>renderOverlay\<close>
  replaces and restores is no field of the model.
\<close>

fun render :: "'m::{times,one} SgNode \<Rightarrow> 'm Impl \<Rightarrow> 'm Impl"
  and renderChildNodes :: "'m SgNode list \<Rightarrow> 'm Impl \<Rightarrow> 'm Impl"
  and renderGroup :: "nat \<Rightarrow> 'm SgNode list \<Rightarrow> 'm Impl \<Rightarrow> 'm Impl"
where
  "render (Group g cs) s = renderGroup g cs s"
| "render (Transform g T cs) s =
     (let s1 = s\<lparr>modelMatrixStack := modelMatrixStack s @ [last (modelMatrixStack s) * T]\<rparr>;
          s2 = snd (pushPickId (SceneObject g) True s1);
          s3 = renderChildNodes cs s2;
          s4 = popPickId s3
      in s4\<lparr>modelMatrixStack := butlast (modelMatrixStack s4)\<rparr>)"
| "render (Switch g isTurnedOn cs) s = (if isTurnedOn then renderGroup g cs s else s)"
| "render (UnpickableGroup g cs) s = (if \<not> isPicking s then renderGroup g cs s else s)"
| "render (Shape shape) s = renderShape shape s"
| "render (PointSet g n) s =
     renderPointSet \<lparr>plotNode = SceneObject g, plotNumVertices = n, plotNumLines = 0\<rparr> s"
| "render (LineSet g n numLines) s =
     renderLineSet \<lparr>plotNode = SceneObject g, plotNumVertices = n, plotNumLines = numLines\<rparr> s"
| "render (Overlay g cs) s =
     (if \<not> isActuallyRendering s then s
      else
        let s1 = pushProgram SolidColorProgram s;
            s2 = s1\<lparr>modelMatrixStack := modelMatrixStack s1 @ [1]\<rparr>;
            s3 = renderGroup g cs s2;
            s4 = s3\<lparr>modelMatrixStack := butlast (modelMatrixStack s3)\<rparr>
        in popProgram s4)"
| "render (OutlineGroup g cs) s =
     (if isPicking s then renderGroup g cs s
      else s\<lparr>postRenderingFunctions :=
               postRenderingFunctions s @ [((g, cs), last (modelMatrixStack s))]\<rparr>)"
| "render (SimplifiedRenderingGroup g cs) s =
     (if isRenderingShadowMap s then s
      else
        let s1 = (if \<not> isPicking s then pushProgram MinimumLightingProgram s else s);
            s2 = renderChildNodes cs s1
        in if \<not> isPicking s2 then popProgram s2 else s2)"
| "renderChildNodes [] s = s"
| "renderChildNodes (c # cs) s = renderChildNodes cs (render c s)"
| "renderGroup g cs s =
     (let s1 = snd (pushPickId (SceneObject g) True s);
          s2 = renderChildNodes cs s1
      in popPickId s2)"

subsection \<open>The passes of a frame\<close>

text \<open>
  \<^verbatim>\<open>renderOutlineGroupMain\<close>, the body of the closure that \<^verbatim>\<open>renderOutlineGroup\<close> defers:
  the children are rendered twice, the second time with the solid colour program.
\<close>

definition renderOutlineGroupMain ::
  "(nat \<times> 'm::{times,one} SgNode list) \<Rightarrow> 'm \<Rightarrow> 'm Impl \<Rightarrow> 'm Impl" where
  "renderOutlineGroupMain outline T s =
     (let s1 = s\<lparr>modelMatrixStack := modelMatrixStack s @ [T]\<rparr>;
          s2 = renderChildNodes (snd outline) s1;
          s3 = pushProgram SolidColorProgram s2;
          s4 = renderChildNodes (snd outline) s3;
          s5 = popProgram s4
      in s5\<lparr>modelMatrixStack := butlast (modelMatrixStack s5)\<rparr>)"

text \<open>
  \<^verbatim>\<open>renderTransparentObjects\<close> calls the \<open>n\<close> closures that are deferred when it starts, by
  index, and clears the list. No closure adds to or changes the list.
\<close>

definition renderTransparentObjects :: "'m Impl \<Rightarrow> 'm Impl" where
  "renderTransparentObjects s =
     (foldl (\<lambda>t (shape, position, pickId). renderShapeMain shape position pickId t) s
        (transparentRenderingFunctions s))
     \<lparr>transparentRenderingFunctions := []\<rparr>"

definition renderCamera :: "'m::{times,one} Impl \<Rightarrow> 'm Impl" where
  "renderCamera s = s\<lparr>modelMatrixStack := [1]\<rparr>"

definition renderSceneGraphNodes :: "'m::{times,one} SgNode \<Rightarrow> 'm Impl \<Rightarrow> 'm Impl" where
  "renderSceneGraphNodes sceneRoot s = render sceneRoot s"

text \<open>
  \<^verbatim>\<open>renderScene\<close>; \<open>camera\<close> tells whether there is a current camera. The loop over
  \<^verbatim>\<open>postRenderingFunctions\<close> runs from the vector's begin to the end it has when the loop
  starts: a closure that an outline group inside an outline group pushes meanwhile is
  not called (and the loop's iterators are invalid in C++ once the vector reallocates).
\<close>

definition renderScene :: "'m::{times,one} SgNode \<Rightarrow> bool \<Rightarrow> 'm Impl \<Rightarrow> 'm Impl" where
  "renderScene sceneRoot camera s =
     (if camera
      then
        let s1 = renderCamera s;
            s2 = s1\<lparr>postRenderingFunctions := [], transparentRenderingFunctions := []\<rparr>;
            s3 = renderSceneGraphNodes sceneRoot s2;
            s4 = foldl (\<lambda>t (outline, T). renderOutlineGroupMain outline T t) s3
                   (postRenderingFunctions s3);
            s5 = s4\<lparr>postRenderingFunctions := []\<rparr>
        in if transparentRenderingFunctions s5 \<noteq> [] then renderTransparentObjects s5 else s5
      else s)"

text \<open>
  The loop of \<^verbatim>\<open>doRender\<close> over the shadow casting lights. Each list element tells whether
  \<^verbatim>\<open>renderShadowMap\<close> finds its light on and with a shadow map camera; then it renders the
  scene graph from the light and the shadow map index advances.
\<close>

fun renderShadowMaps ::
  "'m::{times,one} SgNode \<Rightarrow> nat \<Rightarrow> bool list \<Rightarrow> nat \<Rightarrow> 'm Impl \<Rightarrow> 'm Impl" where
  "renderShadowMaps sceneRoot maxNumShadows [] shadowMapIndex s = s"
| "renderShadowMaps sceneRoot maxNumShadows (light # lights) shadowMapIndex s =
     (if shadowMapIndex < maxNumShadows
      then
        if light
        then renderShadowMaps sceneRoot maxNumShadows lights (shadowMapIndex + 1)
               (renderSceneGraphNodes sceneRoot (renderCamera s))
        else renderShadowMaps sceneRoot maxNumShadows lights shadowMapIndex s
      else s)"

datatype LightingMode = NO_LIGHTING | SOLID_COLOR_LIGHTING | MINIMUM_LIGHTING | FULL_LIGHTING

definition doRender ::
  "'m::{times,one} SgNode \<Rightarrow> bool \<Rightarrow> LightingMode \<Rightarrow> nat \<Rightarrow> bool list \<Rightarrow> 'm Impl \<Rightarrow> 'm Impl" where
  "doRender sceneRoot camera lightingMode maxNumShadows shadowLights s =
     (let s1 = beginRendering s;
          s2 = (case lightingMode of
                  NO_LIGHTING \<Rightarrow> pushProgram NolightingProgram s1
                | SOLID_COLOR_LIGHTING \<Rightarrow> pushProgram SolidColorProgram s1
                | MINIMUM_LIGHTING \<Rightarrow> pushProgram MinimumLightingProgram s1
                | FULL_LIGHTING \<Rightarrow>
                    let t = (if shadowLights = [] then s1
                             else
                               let t1 = pushProgram ShadowMapProgram s1;
                                   t2 = t1\<lparr>isRenderingShadowMap := True,
                                           isActuallyRendering := False\<rparr>;
                                   t3 = renderShadowMaps sceneRoot maxNumShadows shadowLights 0 t2;
                                   t4 = popProgram t3
                               in t4\<lparr>isRenderingShadowMap := False\<rparr>)
                    in pushProgram PhongShadowLightingProgram t);
          s3 = s2\<lparr>isActuallyRendering := True\<rparr>;
          s4 = renderScene sceneRoot camera s3;
          s5 = popProgram s4
      in endRendering s5)"

subsection \<open>Floating point arithmetic\<close>

text \<open>
  The arithmetic of the C++ type \<^verbatim>\<open>float\<close> is that of IEEE 754 binary32: the result of
  an operation is the exact result rounded to the nearest number with a significand of
  24 bits, a tie to the even one. \<open>binary32\<close> is this rounding, for a number below the
  overflow threshold: in units of \<open>2 ^ - 149\<close>, the least positive binary32 number, a
  number of \<open>b\<close> bits is rounded to a multiple of \<open>2 ^ (b - 24)\<close>.
\<close>

definition roundToEven :: "real \<Rightarrow> int" where
  "roundToEven x =
     (let f = \<lfloor>x\<rfloor>; d = x - real_of_int f
      in if d < 1 / 2 then f else if 1 / 2 < d then f + 1 else if even f then f else f + 1)"

definition binary32 :: "real \<Rightarrow> real" where
  "binary32 x =
     (let n = \<bar>x\<bar> * 2 ^ 149;
          u = 2 ^ nat (bitlen \<lfloor>n\<rfloor> - 24)
      in sgn x * real_of_int (roundToEven (n / real_of_int u) * u) / 2 ^ 149)"

text \<open>
  The conversion of a C++ floating point value to an integer truncates. Of a value
  outside the range of the integer type the conversion is undefined; the model wraps
  it as the x86-64 compilers do, so that \<open>- 1\<close> becomes the largest \<^verbatim>\<open>unsigned int\<close>.
\<close>

definition truncToInt :: "real \<Rightarrow> int" where
  "truncToInt x = (if 0 \<le> x then \<lfloor>x\<rfloor> else \<lceil>x\<rceil>)"

definition toUInt32 :: "real \<Rightarrow> 32 word" where
  "toUInt32 x = word_of_int (truncToInt x)"

subsection \<open>Picking\<close>

text \<open>
  The identifier that \<^verbatim>\<open>doPick\<close> computes from the pixel it has read back
  as three \<^verbatim>\<open>GLfloat\<close>:

  \<^verbatim>\<open>(color[0] * 255) + ((int)(color[1] * 255) << 8) + ((int)(color[2] * 255) << 16) - 1\<close>.

  The products are \<^verbatim>\<open>float\<close> products. The first one enters the sum as it is, the other
  two are truncated to \<^verbatim>\<open>int\<close> and shifted; each \<^verbatim>\<open>int\<close> is converted to \<^verbatim>\<open>float\<close> for the
  sum, which is a \<^verbatim>\<open>float\<close> sum, rounded after each operation, and the result is converted
  to \<^verbatim>\<open>unsigned int\<close>. (The components of a pixel are in \<open>[0, 1]\<close>, so that the \<^verbatim>\<open>int\<close>
  values are far from overflow: the model takes them as integers.)
\<close>

definition decodePickColor :: "Vector3f \<Rightarrow> 32 word" where
  "decodePickColor color =
     (case color of (r, g, b) \<Rightarrow>
        let red = binary32 (r * 255);
            green = push_bit 8 (truncToInt (binary32 (g * 255)));
            blue = push_bit 16 (truncToInt (binary32 (b * 255)));
            sum1 = binary32 (red + binary32 (real_of_int green));
            sum2 = binary32 (sum1 + binary32 (real_of_int blue))
        in toUInt32 (binary32 (sum2 - 1)))"

text \<open>
  \<^verbatim>\<open>doPick\<close>. The two \<^verbatim>\<open>glReadPixels\<close> return what the picking pass has rasterised at
  \<open>(x, y)\<close>: the colour and the depth are inputs of the model. \<^verbatim>\<open>unproject\<close> is a function
  of the base class, outside \<^verbatim>\<open>src/\<close>: it returns its boolean and what it leaves in its
  output argument.
\<close>

definition doPick ::
  "'m::{times,one} SgNode \<Rightarrow> bool \<Rightarrow> int \<Rightarrow> int \<Rightarrow> Vector3f \<Rightarrow> real
   \<Rightarrow> (int \<Rightarrow> int \<Rightarrow> real \<Rightarrow> Vector3f \<Rightarrow> bool \<times> Vector3f)
   \<Rightarrow> 'm Impl \<Rightarrow> bool \<times> 'm Impl" where
  "doPick sceneRoot camera x y color depth unproject s =
     (let s1 = s\<lparr>isPicking := True, isActuallyRendering := False\<rparr>;
          s2 = beginRendering s1;
          s3 = pushProgram SolidColorProgram s2;
          s4 = s3\<lparr>currentNodePath := [], pickingNodePathList := []\<rparr>;
          s5 = renderScene sceneRoot camera s4;
          s6 = popProgram s5;
          s7 = s6\<lparr>isPicking := False\<rparr>;
          s8 = endRendering s7;
          pid = decodePickColor color;
          s9 = s8\<lparr>pickedNodePath := []\<rparr>;
          s10 = (if 0 < pid \<and> unat pid < length (pickingNodePathList s9)
                 then
                   let (ok, point) = unproject x y depth (pickedPoint s9);
                       s' = s9\<lparr>pickedPoint := point\<rparr>
                   in if ok
                      then s'\<lparr>pickedNodePath := pickingNodePathList s' ! unat pid\<rparr>
                      else s'
                 else s9)
      in (pickedNodePath s10 \<noteq> [], s10))"

subsection \<open>Mesh normals\<close>

text \<open>
  A read of a C++ array by an \<^verbatim>\<open>int\<close> index; a read outside the array is undefined in
  C++ and \<open>None\<close> here.
\<close>

definition nthOpt :: "'a list \<Rightarrow> int \<Rightarrow> 'a option" where
  "nthOpt xs i = (if 0 \<le> i \<and> i < int (length xs) then Some (xs ! nat i) else None)"

text \<open>
  The operations of Eigen's \<^verbatim>\<open>Vector3f\<close> that \<^verbatim>\<open>writeMeshNormalsSub\<close> uses. Eigen is no
  part of the repository: the operations are parameters.
\<close>

record VectorOps =
  minus3 :: "Vector3f \<Rightarrow> Vector3f \<Rightarrow> Vector3f"
  cross :: "Vector3f \<Rightarrow> Vector3f \<Rightarrow> Vector3f"
  normalized :: "Vector3f \<Rightarrow> Vector3f"

text \<open>
  The loop of the flat shading branch over the triangles \<open>i\<close>. \<open>enc\<close> is what the
  \<^verbatim>\<open>append\<close> of the \<^verbatim>\<open>NormalArrayWrapper\<close> stores for a normal: the vector itself for
  \<^verbatim>\<open>writeMeshNormalsFloat\<close>, the packed word for \<^verbatim>\<open>writeMeshNormalsPacked\<close>.
\<close>

fun flatShadingLoop ::
  "VectorOps \<Rightarrow> (Vector3f \<Rightarrow> 'a) \<Rightarrow> Vector3f list \<Rightarrow> int list \<Rightarrow> nat list \<Rightarrow> 'a list
   \<Rightarrow> 'a list option" where
  "flatShadingLoop ops enc orgVertices tv [] array = Some array"
| "flatShadingLoop ops enc orgVertices tv (i # rest) array =
     (case (nthOpt tv (int (3 * i)), nthOpt tv (int (3 * i + 1)), nthOpt tv (int (3 * i + 2))) of
        (Some t0, Some t1, Some t2) \<Rightarrow>
          (case (nthOpt orgVertices t0, nthOpt orgVertices t1, nthOpt orgVertices t2) of
             (Some p0, Some p1, Some p2) \<Rightarrow>
               let e1 = minus3 ops p1 p0;
                   e2 = minus3 ops p2 p0;
                   normal = normalized ops (cross ops e1 e2)
               in flatShadingLoop ops enc orgVertices tv rest
                    (array @ [enc normal, enc normal, enc normal])
           | _ \<Rightarrow> None)
      | _ \<Rightarrow> None)"

text \<open>
  The loops of the smooth shading branch over the face vertices: \<open>indices\<close> is
  \<^verbatim>\<open>triangleVertices\<close> or, when the mesh has them, \<^verbatim>\<open>normalIndices\<close>.
\<close>

fun smoothShadingLoop ::
  "(Vector3f \<Rightarrow> 'a) \<Rightarrow> Vector3f list \<Rightarrow> int list \<Rightarrow> nat list \<Rightarrow> 'a list \<Rightarrow> 'a list option" where
  "smoothShadingLoop enc orgNormals indices [] array = Some array"
| "smoothShadingLoop enc orgNormals indices (faceVertexIndex # rest) array =
     (case Option.bind (nthOpt indices (int faceVertexIndex)) (nthOpt orgNormals) of
        Some n \<Rightarrow> smoothShadingLoop enc orgNormals indices rest (array @ [enc n])
      | None \<Rightarrow> None)"

text \<open>
  \<^verbatim>\<open>writeMeshNormalsSub\<close>: the value \<open>ready\<close> and the array of the wrapper, or \<open>None\<close> when
  a read leaves an array. The line set of the normal visualisation, which the function
  also builds, is in \<open>writeMeshVertices\<close> above.
\<close>

definition writeMeshNormalsSub ::
  "VectorOps \<Rightarrow> (Vector3f \<Rightarrow> 'a) \<Rightarrow> bool \<Rightarrow> SgMesh \<Rightarrow> (bool \<times> 'a list) option" where
  "writeMeshNormalsSub ops enc defaultSmoothShading m =
     (if \<not> defaultSmoothShading
      then (case vertices m of
              None \<Rightarrow> None
            | Some orgVertices \<Rightarrow>
                map_option (Pair True)
                  (flatShadingLoop ops enc orgVertices (triangleVertices m)
                     [0..<numTriangles m] []))
      else (case normals m of
              None \<Rightarrow> Some (False, [])
            | Some orgNormals \<Rightarrow>
                map_option (Pair True)
                  (smoothShadingLoop enc orgNormals
                     (if normalIndices m = [] then triangleVertices m else normalIndices m)
                     [0..<numTriangles m * 3] [])))"

subsection \<open>Packed normals\<close>

text \<open>
  The \<^verbatim>\<open>NormalArrayWrapper\<close> of \<^verbatim>\<open>writeMeshNormalsPacked\<close>. \<open>rnd\<close> is the rounding of a
  \<^verbatim>\<open>float\<close> operation: \<open>binary32\<close> for the program as compiled,
  the identity for the arithmetic of the reals. \<open>packComponent\<close> is the ten bit field of
  one component, sign bit included; \<open>unpackComponent\<close> is one round of the loop of
  \<^verbatim>\<open>get\<close>.
\<close>

definition packComponent :: "(real \<Rightarrow> real) \<Rightarrow> real \<Rightarrow> 32 word" where
  "packComponent rnd v =
     (let sign = (if v < 0 then 1 else 0) :: 32 word
      in push_bit 9 sign
         OR (toUInt32 (rnd (rnd (v * 511) + real (unat (push_bit 9 sign)))) AND 511))"

definition NormalArrayWrapper_append :: "(real \<Rightarrow> real) \<Rightarrow> Vector3f \<Rightarrow> 32 word" where
  "NormalArrayWrapper_append rnd v =
     (case v of (x, y, z) \<Rightarrow>
        push_bit 20 (packComponent rnd z) OR push_bit 10 (packComponent rnd y)
        OR packComponent rnd x)"

definition unpackComponent :: "(real \<Rightarrow> real) \<Rightarrow> 32 word \<Rightarrow> real" where
  "unpackComponent rnd packed =
     (if packed AND 512 \<noteq> 0
      then rnd (real_of_int (sint (packed AND 511) - 512) / 512)
      else rnd (real (unat (packed AND 511)) / 511))"

definition NormalArrayWrapper_get :: "(real \<Rightarrow> real) \<Rightarrow> 32 word \<Rightarrow> Vector3f" where
  "NormalArrayWrapper_get rnd packed =
     (unpackComponent rnd packed,
      unpackComponent rnd (drop_bit 10 packed),
      unpackComponent rnd (drop_bit 20 packed))"

subsection \<open>Reading the record of the GL calls\<close>

text \<open>
  The deferrals among a sequence of calls, in their order; the shapes drawn, with their
  model matrices, in the order of their draw calls; whether a call draws a transparent
  shape; and what the transparent pass may issue: the draw call of a transparent shape,
  or that of a line set that visualises normals.
\<close>

fun deferralsOf :: "'m glCall list \<Rightarrow> (SgShape \<times> 'm \<times> 32 word) list" where
  "deferralsOf [] = []"
| "deferralsOf (Deferred shape position pickId # calls) =
     (shape, position, pickId) # deferralsOf calls"
| "deferralsOf (GlDrawArrays node resource mode position # calls) = deferralsOf calls"

fun shapeDrawsOf :: "'m glCall list \<Rightarrow> (SgShape \<times> 'm) list" where
  "shapeDrawsOf [] = []"
| "shapeDrawsOf (GlDrawArrays (ShapeDrawable shape) resource mode position # calls) =
     (shape, position) # shapeDrawsOf calls"
| "shapeDrawsOf (GlDrawArrays (PlotDrawable plot) resource mode position # calls) =
     shapeDrawsOf calls"
| "shapeDrawsOf (Deferred shape position pickId # calls) = shapeDrawsOf calls"

fun isTransparentDraw :: "'m glCall \<Rightarrow> bool" where
  "isTransparentDraw (GlDrawArrays (ShapeDrawable shape) resource mode position) =
     isTransparent shape"
| "isTransparentDraw (GlDrawArrays (PlotDrawable plot) resource mode position) = False"
| "isTransparentDraw (Deferred shape position pickId) = False"

fun isNormalVisualization :: "SgObject \<Rightarrow> bool" where
  "isNormalVisualization (NormalVisualization k) = True"
| "isNormalVisualization (SceneObject k) = False"

fun transparentPassCall :: "'m glCall \<Rightarrow> bool" where
  "transparentPassCall (GlDrawArrays (ShapeDrawable shape) resource mode position) =
     isTransparent shape"
| "transparentPassCall (GlDrawArrays (PlotDrawable plot) resource mode position) =
     isNormalVisualization (plotNode plot)"
| "transparentPassCall (Deferred shape position pickId) = False"

text \<open>
  The fields that a traversal leaves as it finds them: it never writes them, or it
  restores them before it returns.
\<close>

definition traversalFrame ::
  "'m Impl \<Rightarrow>
   ('m list \<times> SgObject list \<times> ShaderProgram option list \<times> ShaderProgram option)
   \<times> (bool \<times> bool \<times> bool \<times> bool) \<times> (Vector3f \<times> SgObject list)
   \<times> (int \<times> bool \<times> bool \<times> bool \<times> bool)" where
  "traversalFrame s =
     ((modelMatrixStack s, currentNodePath s, programStack s, currentProgram s),
      (isPicking s, isRenderingShadowMap s, isActuallyRendering s,
       isNormalVisualizationEnabled s),
      (pickedPoint s, pickedNodePath s),
      (currentResourceMapIndex s, doUnusedResourceCheck s, isCheckingUnusedResources s,
       hasValidNextResourceMap s, isResourceClearRequested s))"

text \<open>
  What a traversal adds to the record of the calls and to the deferred closures: calls
  \<open>L\<close> none of which draws a transparent shape, and the closures of the deferrals
  among \<open>L\<close>, each of a transparent shape that has a mesh; no deferral while a shadow
  map is rendered.
\<close>

definition traverses :: "'m Impl \<Rightarrow> 'm Impl \<Rightarrow> bool" where
  "traverses s s' =
     (isRenderingShadowMap s' = isRenderingShadowMap s
      \<and> (\<exists>L. glCalls s' = glCalls s @ L
             \<and> transparentRenderingFunctions s' =
                 transparentRenderingFunctions s @ deferralsOf L
             \<and> list_all (\<lambda>e. \<not> isTransparentDraw e) L
             \<and> list_all (\<lambda>(shape, position, pickId). isTransparent shape \<and> mesh shape \<noteq> None)
                  (deferralsOf L)
             \<and> (isRenderingShadowMap s \<longrightarrow> deferralsOf L = [])))"

definition pickPathsOk :: "'m Impl \<Rightarrow> bool" where
  "pickPathsOk s = list_all (\<lambda>path. path \<noteq> []) (pickingNodePathList s)"

subsection \<open>Frames as the resource cache sees them\<close>

text \<open>
  The lookups of a frame, in order. The log keeps, for each call of
  \<^verbatim>\<open>getOrCreateVertexResource\<close>, the object, the resource returned, and whether the call
  has created a resource with \<^verbatim>\<open>new VertexResource\<close>.
\<close>

fun lookups :: "SgObject list \<Rightarrow> 'm Impl \<Rightarrow> (SgObject \<times> nat \<times> bool) list \<times> 'm Impl" where
  "lookups [] s = ([], s)"
| "lookups (obj # objs) s =
     (let (resource, s1) = getOrCreateVertexResource obj s;
          (entries, s2) = lookups objs s1
      in ((obj, resource, nextHandle s1 \<noteq> nextHandle s) # entries, s2))"

text \<open>
  A frame: \<^verbatim>\<open>doRender\<close>, or, when \<open>picking\<close> is set, the pass of \<^verbatim>\<open>doPick\<close>, which sets
  \<^verbatim>\<open>isPicking\<close> before \<^verbatim>\<open>beginRendering\<close> and resets it before \<^verbatim>\<open>endRendering\<close>. Of the
  rendering between the two only the lookups are kept.
\<close>

definition frame ::
  "bool \<times> SgObject list \<Rightarrow> 'm Impl \<Rightarrow> (SgObject \<times> nat \<times> bool) list \<times> 'm Impl" where
  "frame f s =
     (let s1 = beginRendering (s\<lparr>isPicking := fst f\<rparr>);
          (entries, s2) = lookups (snd f) s1
      in (entries, endRendering (s2\<lparr>isPicking := False\<rparr>)))"

fun frames ::
  "(bool \<times> SgObject list) list \<Rightarrow> 'm Impl \<Rightarrow> (SgObject \<times> nat \<times> bool) list \<times> 'm Impl" where
  "frames [] s = ([], s)"
| "frames (f # fs) s =
     (let (entries, s1) = frame f s;
          (entries', s2) = frames fs s1
      in (entries @ entries', s2))"

definition lookupsOf :: "SgObject \<Rightarrow> (SgObject \<times> nat \<times> bool) list \<Rightarrow> (nat \<times> bool) list" where
  "lookupsOf obj entries = map snd (filter (\<lambda>e. fst e = obj) entries)"

text \<open>
  Between two frames \<^verbatim>\<open>currentResourceMapIndex\<close> is 0 or 1 and one of the two maps is
  empty: the current one when \<^verbatim>\<open>endRendering\<close> has cleared it and handed over to the
  next one, the next one otherwise. \<open>validResourceMap\<close> is the other map, the one that holds the resources.
\<close>

definition cacheInvariant :: "'m Impl \<Rightarrow> bool" where
  "cacheInvariant s =
     ((currentResourceMapIndex s = 0 \<or> currentResourceMapIndex s = 1)
      \<and> (if hasValidNextResourceMap s then currentResourceMap s = Map.empty
         else nextResourceMap s = Map.empty))"

definition validResourceMap :: "'m Impl \<Rightarrow> GLResourceMap" where
  "validResourceMap s =
     (if hasValidNextResourceMap s then nextResourceMap s else currentResourceMap s)"

text \<open>
  Within a frame, after \<^verbatim>\<open>beginRendering\<close>: when the frame checks for unused resources,
  what the next map holds the current map holds too; when it does not, the next map is
  empty.
\<close>

definition frameInvariant :: "'m Impl \<Rightarrow> bool" where
  "frameInvariant s =
     (if isCheckingUnusedResources s
      then (\<forall>obj h. nextResourceMap s obj = Some h \<longrightarrow> currentResourceMap s obj = Some h)
      else nextResourceMap s = Map.empty)"

subsection \<open>Example scenes and states\<close>

text \<open>
  The state after a first frame that looks one object up: the clear request of
  \<^verbatim>\<open>initializeGL\<close> is served and the object's resource is in the current map.
\<close>

definition exampleCached :: "int Impl" where
  "exampleCached =
     endRendering (snd (getOrCreateVertexResource (SceneObject 0) (beginRendering initialize)))"

text \<open>
  A scene whose root group holds a transparent shape, visited first, and an opaque
  shape; each mesh is one triangle. And the renderer after its first, empty frame.
\<close>

definition exampleTriangle :: "nat \<Rightarrow> SgMesh" where
  "exampleTriangle k =
     \<lparr>meshObject = k, vertices = Some [(0, 0, 0), (1, 0, 0), (0, 1, 0)],
      triangleVertices = [0, 1, 2], normals = None, normalIndices = []\<rparr>"

definition exampleGlass :: SgShape where
  "exampleGlass =
     \<lparr>shapeNode = 2, mesh = Some (exampleTriangle 20),
      material = Some \<lparr>transparency = 1 / 2\<rparr>\<rparr>"

definition exampleBox :: SgShape where
  "exampleBox = \<lparr>shapeNode = 3, mesh = Some (exampleTriangle 30), material = None\<rparr>"

definition exampleScene :: "int SgNode" where
  "exampleScene = Group 1 [Shape exampleGlass, Shape exampleBox]"

definition exampleStart :: "int Impl" where
  "exampleStart = endRendering (beginRendering initialize)"

text \<open>
  The operations of \<^verbatim>\<open>Vector3f\<close> as Eigen defines them, in the arithmetic of the reals:
  \<^verbatim>\<open>normalized\<close> divides by the norm unless the squared norm is 0.
\<close>

definition eigenOps :: VectorOps where
  "eigenOps =
     \<lparr>minus3 = (\<lambda>(a1, a2, a3) (b1, b2, b3). (a1 - b1, a2 - b2, a3 - b3)),
      cross = (\<lambda>(a1, a2, a3) (b1, b2, b3).
                 (a2 * b3 - a3 * b2, a3 * b1 - a1 * b3, a1 * b2 - a2 * b1)),
      normalized = (\<lambda>(x, y, z).
                      let n2 = x * x + y * y + z * z
                      in if 0 < n2 then (x / sqrt n2, y / sqrt n2, z / sqrt n2) else (x, y, z))\<rparr>"

section \<open>The resource cache: clear requests\<close>

text \<open>
  Claim C2 as the spec states it: immediately after \<^verbatim>\<open>requestToClearResources\<close> returns,
  both maps are empty. It fails: the function only sets a flag. In the state after a
  first frame, the resource of the object that the frame has looked up is still in the
  current map when the request returns.
\<close>

theorem requestToClearResources_keeps_maps:
  "currentResourceMap (requestToClearResources exampleCached) (SceneObject 0) = Some 0"
  by (simp add: exampleCached_def requestToClearResources_def endRendering_def
      getOrCreateVertexResource_def beginRendering_def initialize_def currentResourceMap_def
      nextResourceMap_def mapInsert_def Let_def)

text \<open>
  Claim C2, amended: \<^verbatim>\<open>requestToClearResources\<close> leaves both maps as they are and only
  records the request; the next \<^verbatim>\<open>beginRendering\<close> empties both maps, before any lookup
  of the frame, and withdraws the request.
\<close>

theorem clear_request_served_by_beginRendering:
  "resourceMaps (requestToClearResources s) = resourceMaps s
   \<and> isResourceClearRequested (requestToClearResources s)
   \<and> resourceMaps (beginRendering (requestToClearResources s)) 0 = Map.empty
   \<and> resourceMaps (beginRendering (requestToClearResources s)) 1 = Map.empty
   \<and> \<not> isResourceClearRequested (beginRendering (requestToClearResources s))"
  by (simp add: requestToClearResources_def beginRendering_def Let_def)

section \<open>Texture images: reuse of the storage\<close>

text \<open>
  For an image of one to four components, \<^verbatim>\<open>loadTextureImage\<close> updates the storage the
  texture has exactly when the resource is loaded and the width and the height agree.
  The number of components takes no part: the function stores the image's number in
  the resource before \<^verbatim>\<open>isSameSizeAs\<close> compares the two.
\<close>

lemma loadTextureImage_upload:
  "imageNumComponents img \<in> {1, 2, 3, 4} \<Longrightarrow>
   snd (snd (loadTextureImage r img)) =
     Some (if isLoaded r \<and> width r = imageWidth img \<and> height r = imageHeight img
           then GlTexSubImage2D (imageWidth img) (imageHeight img)
           else GlTexImage2D (imageWidth img) (imageHeight img))"
  by (auto simp add: loadTextureImage_def isSameSizeAs_def Let_def)

text \<open>
  Claim C8 at an image that differs from the loaded texture only in the number of
  components (three recorded, four new): the claim has the storage allocated anew,
  \<^verbatim>\<open>loadTextureImage\<close> issues \<^verbatim>\<open>glTexSubImage2D\<close> into the storage of the three component
  texture.
\<close>

theorem loadTextureImage_ignores_numComponents:
  "loadTextureImage
     \<lparr>isLoaded = True, isImageUpdateNeeded = True, textureId = 1, samplerId = 1,
      width = 64, height = 64, numComponents = 3\<rparr>
     \<lparr>imageWidth = 64, imageHeight = 64, imageNumComponents = 4\<rparr>
   = (True,
      \<lparr>isLoaded = True, isImageUpdateNeeded = False, textureId = 1, samplerId = 1,
       width = 64, height = 64, numComponents = 4\<rparr>,
      Some (GlTexSubImage2D 64 64))"
  by (simp add: loadTextureImage_def isSameSizeAs_def Let_def)

section \<open>Nodes without geometry\<close>

text \<open>
  Claim C9: \<^verbatim>\<open>renderShape\<close> of a shape without a mesh or with a mesh without vertices,
  \<^verbatim>\<open>renderPointSet\<close> of a point set without vertices and \<^verbatim>\<open>renderLineSet\<close> of a line set
  without vertices or without lines return the state they are given: no draw call, no
  deferral, no pick identifier, no resource. The functions are total: nothing is raised.
\<close>

theorem render_without_geometry:
  "((mesh shape = None \<or> (\<exists>m. mesh shape = Some m \<and> \<not> hasVertices m))
      \<longrightarrow> renderShape shape s = s \<and> render (Shape shape) s = s)
   \<and> (\<not> plotHasVertices pointSet \<longrightarrow> renderPointSet pointSet s = s)
   \<and> ((\<not> plotHasVertices lineSet \<or> plotNumLines lineSet \<le> 0)
        \<longrightarrow> renderLineSet lineSet s = s)"
  by (auto simp add: renderShape_def renderPointSet_def renderLineSet_def)

theorem render_without_geometry_witness:
  "renderShape \<lparr>shapeNode = 1, mesh = None, material = None\<rparr> (initialize :: int Impl)
     = initialize
   \<and> renderShape
        \<lparr>shapeNode = 1,
         mesh = Some \<lparr>meshObject = 2, vertices = Some [], triangleVertices = [],
                      normals = None, normalIndices = []\<rparr>,
         material = Some \<lparr>transparency = 1 / 2\<rparr>\<rparr> (initialize :: int Impl)
     = initialize
   \<and> renderPointSet \<lparr>plotNode = SceneObject 3, plotNumVertices = 0, plotNumLines = 0\<rparr>
        (initialize :: int Impl) = initialize
   \<and> renderLineSet \<lparr>plotNode = SceneObject 4, plotNumVertices = 2, plotNumLines = 0\<rparr>
        (initialize :: int Impl) = initialize"
  using
    render_without_geometry [of "\<lparr>shapeNode = 1, mesh = None, material = None\<rparr>"
      "initialize :: int Impl"]
    render_without_geometry [of
      "\<lparr>shapeNode = 1,
        mesh = Some \<lparr>meshObject = 2, vertices = Some [], triangleVertices = [],
                     normals = None, normalIndices = []\<rparr>,
        material = Some \<lparr>transparency = 1 / 2\<rparr>\<rparr>"
      "initialize :: int Impl"
      "\<lparr>plotNode = SceneObject 3, plotNumVertices = 0, plotNumLines = 0\<rparr>"
      "\<lparr>plotNode = SceneObject 4, plotNumVertices = 2, plotNumLines = 0\<rparr>"]
  by (simp add: hasVertices_def plotHasVertices_def)

section \<open>Pick identifiers\<close>

text \<open>
  Claim C4. Outside a picking pass \<^verbatim>\<open>pushPickId\<close> returns 0 and leaves the state (no
  colour, no record), and \<^verbatim>\<open>popPickId\<close> leaves the state. In a picking pass
  \<^verbatim>\<open>pickingNodePathList\<close> holds one entry for each call so far (\<^verbatim>\<open>doPick\<close> clears it when the
  pass starts, only \<^verbatim>\<open>pushPickId\<close> adds to it), so the call that finds \<open>k - 1\<close> entries is
  the \<open>k\<close>-th: it returns \<open>k\<close> as an \<^verbatim>\<open>unsigned int\<close>, which is the number \<open>k\<close> below
  \<open>2 ^ 32\<close>; it appends the node to the current path and the extended path to the list;
  with \<^verbatim>\<open>doSetColor\<close> it sets the colour to the three low bytes of \<open>k\<close>, each over 255, and
  without it leaves the colour; \<^verbatim>\<open>popPickId\<close> then restores the path and keeps the list.
\<close>

theorem pushPickId_protocol:
  "(\<not> isPicking s \<longrightarrow> pushPickId node doSetColor s = (0, s) \<and> popPickId s = s)
   \<and> (isPicking s \<longrightarrow>
        (case pushPickId node doSetColor s of (pid, s') \<Rightarrow>
           pid = word_of_nat (length (pickingNodePathList s) + 1)
           \<and> (length (pickingNodePathList s) + 1 < 2 ^ 32
                \<longrightarrow> unat pid = length (pickingNodePathList s) + 1)
           \<and> currentNodePath s' = currentNodePath s @ [node]
           \<and> pickingNodePathList s' = pickingNodePathList s @ [currentNodePath s @ [node]]
           \<and> solidColor s' =
               (if doSetColor
                then (real (unat (pid AND 0xff)) / 255,
                      real (unat (drop_bit 8 pid AND 0xff)) / 255,
                      real (unat (drop_bit 16 pid AND 0xff)) / 255)
                else solidColor s)
           \<and> currentNodePath (popPickId s') = currentNodePath s
           \<and> pickingNodePathList (popPickId s') = pickingNodePathList s'))"
  by (auto simp add: pushPickId_def popPickId_def setPickColor_def Let_def unat_of_nat
      simp del: of_nat_Suc of_nat_add)

theorem pushPickId_protocol_witness:
  "pushPickId (SceneObject 7) True (initialize :: int Impl) = (0, initialize)
   \<and> fst (pushPickId (SceneObject 7) True
        ((initialize :: int Impl)\<lparr>isPicking := True, pickingNodePathList := [[SceneObject 1]],
            currentNodePath := [SceneObject 1]\<rparr>)) = 2
   \<and> pickingNodePathList (snd (pushPickId (SceneObject 7) True
        ((initialize :: int Impl)\<lparr>isPicking := True, pickingNodePathList := [[SceneObject 1]],
            currentNodePath := [SceneObject 1]\<rparr>)))
      = [[SceneObject 1], [SceneObject 1, SceneObject 7]]
   \<and> solidColor (snd (pushPickId (SceneObject 7) True
        ((initialize :: int Impl)\<lparr>isPicking := True, pickingNodePathList := [[SceneObject 1]],
            currentNodePath := [SceneObject 1]\<rparr>)))
      = (2 / 255, 0, 0)"
  using pushPickId_protocol [of "initialize :: int Impl" "SceneObject 7" True]
    pushPickId_protocol [of
      "(initialize :: int Impl)\<lparr>isPicking := True, pickingNodePathList := [[SceneObject 1]],
         currentNodePath := [SceneObject 1]\<rparr>" "SceneObject 7" True]
  by (simp add: initialize_def split: prod.splits)

section \<open>The fields that each operation leaves\<close>

lemma getOrCreateVertexResource_fields [simp]:
  "currentProgram (snd (getOrCreateVertexResource obj s)) = currentProgram s"
  "programStack (snd (getOrCreateVertexResource obj s)) = programStack s"
  "isActuallyRendering (snd (getOrCreateVertexResource obj s)) = isActuallyRendering s"
  "isPicking (snd (getOrCreateVertexResource obj s)) = isPicking s"
  "isRenderingShadowMap (snd (getOrCreateVertexResource obj s)) = isRenderingShadowMap s"
  "modelMatrixStack (snd (getOrCreateVertexResource obj s)) = modelMatrixStack s"
  "postRenderingFunctions (snd (getOrCreateVertexResource obj s)) = postRenderingFunctions s"
  "transparentRenderingFunctions (snd (getOrCreateVertexResource obj s))
     = transparentRenderingFunctions s"
  "currentResourceMapIndex (snd (getOrCreateVertexResource obj s))
     = currentResourceMapIndex s"
  "doUnusedResourceCheck (snd (getOrCreateVertexResource obj s)) = doUnusedResourceCheck s"
  "isCheckingUnusedResources (snd (getOrCreateVertexResource obj s))
     = isCheckingUnusedResources s"
  "hasValidNextResourceMap (snd (getOrCreateVertexResource obj s))
     = hasValidNextResourceMap s"
  "isResourceClearRequested (snd (getOrCreateVertexResource obj s))
     = isResourceClearRequested s"
  "isNormalVisualizationEnabled (snd (getOrCreateVertexResource obj s))
     = isNormalVisualizationEnabled s"
  "currentNodePath (snd (getOrCreateVertexResource obj s)) = currentNodePath s"
  "pickingNodePathList (snd (getOrCreateVertexResource obj s)) = pickingNodePathList s"
  "pickedNodePath (snd (getOrCreateVertexResource obj s)) = pickedNodePath s"
  "pickedPoint (snd (getOrCreateVertexResource obj s)) = pickedPoint s"
  "solidColor (snd (getOrCreateVertexResource obj s)) = solidColor s"
  "nextLineSet (snd (getOrCreateVertexResource obj s)) = nextLineSet s"
  "glCalls (snd (getOrCreateVertexResource obj s)) = glCalls s"
  by (simp_all add: getOrCreateVertexResource_def Let_def split: option.splits)

lemma updateResource_fields [simp]:
  "currentProgram (updateResource h f s) = currentProgram s"
  "programStack (updateResource h f s) = programStack s"
  "isActuallyRendering (updateResource h f s) = isActuallyRendering s"
  "isPicking (updateResource h f s) = isPicking s"
  "isRenderingShadowMap (updateResource h f s) = isRenderingShadowMap s"
  "modelMatrixStack (updateResource h f s) = modelMatrixStack s"
  "postRenderingFunctions (updateResource h f s) = postRenderingFunctions s"
  "transparentRenderingFunctions (updateResource h f s) = transparentRenderingFunctions s"
  "resourceMaps (updateResource h f s) = resourceMaps s"
  "currentResourceMapIndex (updateResource h f s) = currentResourceMapIndex s"
  "doUnusedResourceCheck (updateResource h f s) = doUnusedResourceCheck s"
  "isCheckingUnusedResources (updateResource h f s) = isCheckingUnusedResources s"
  "hasValidNextResourceMap (updateResource h f s) = hasValidNextResourceMap s"
  "isResourceClearRequested (updateResource h f s) = isResourceClearRequested s"
  "isNormalVisualizationEnabled (updateResource h f s) = isNormalVisualizationEnabled s"
  "currentNodePath (updateResource h f s) = currentNodePath s"
  "pickingNodePathList (updateResource h f s) = pickingNodePathList s"
  "pickedNodePath (updateResource h f s) = pickedNodePath s"
  "pickedPoint (updateResource h f s) = pickedPoint s"
  "solidColor (updateResource h f s) = solidColor s"
  "nextHandle (updateResource h f s) = nextHandle s"
  "nextLineSet (updateResource h f s) = nextLineSet s"
  "glCalls (updateResource h f s) = glCalls s"
  by (simp_all add: updateResource_def)

lemma writeMeshVertices_fields [simp]:
  "currentProgram (writeMeshVertices m h s) = currentProgram s"
  "programStack (writeMeshVertices m h s) = programStack s"
  "isActuallyRendering (writeMeshVertices m h s) = isActuallyRendering s"
  "isPicking (writeMeshVertices m h s) = isPicking s"
  "isRenderingShadowMap (writeMeshVertices m h s) = isRenderingShadowMap s"
  "modelMatrixStack (writeMeshVertices m h s) = modelMatrixStack s"
  "postRenderingFunctions (writeMeshVertices m h s) = postRenderingFunctions s"
  "transparentRenderingFunctions (writeMeshVertices m h s) = transparentRenderingFunctions s"
  "resourceMaps (writeMeshVertices m h s) = resourceMaps s"
  "currentResourceMapIndex (writeMeshVertices m h s) = currentResourceMapIndex s"
  "doUnusedResourceCheck (writeMeshVertices m h s) = doUnusedResourceCheck s"
  "isCheckingUnusedResources (writeMeshVertices m h s) = isCheckingUnusedResources s"
  "hasValidNextResourceMap (writeMeshVertices m h s) = hasValidNextResourceMap s"
  "isResourceClearRequested (writeMeshVertices m h s) = isResourceClearRequested s"
  "isNormalVisualizationEnabled (writeMeshVertices m h s) = isNormalVisualizationEnabled s"
  "currentNodePath (writeMeshVertices m h s) = currentNodePath s"
  "pickingNodePathList (writeMeshVertices m h s) = pickingNodePathList s"
  "pickedNodePath (writeMeshVertices m h s) = pickedNodePath s"
  "pickedPoint (writeMeshVertices m h s) = pickedPoint s"
  "solidColor (writeMeshVertices m h s) = solidColor s"
  "nextHandle (writeMeshVertices m h s) = nextHandle s"
  "glCalls (writeMeshVertices m h s) = glCalls s"
  by (simp_all add: writeMeshVertices_def updateResource_def Let_def)

lemma pushProgram_fields [simp]:
  "isActuallyRendering (pushProgram p s) = isActuallyRendering s"
  "isPicking (pushProgram p s) = isPicking s"
  "isRenderingShadowMap (pushProgram p s) = isRenderingShadowMap s"
  "modelMatrixStack (pushProgram p s) = modelMatrixStack s"
  "postRenderingFunctions (pushProgram p s) = postRenderingFunctions s"
  "transparentRenderingFunctions (pushProgram p s) = transparentRenderingFunctions s"
  "resourceMaps (pushProgram p s) = resourceMaps s"
  "currentResourceMapIndex (pushProgram p s) = currentResourceMapIndex s"
  "doUnusedResourceCheck (pushProgram p s) = doUnusedResourceCheck s"
  "isCheckingUnusedResources (pushProgram p s) = isCheckingUnusedResources s"
  "hasValidNextResourceMap (pushProgram p s) = hasValidNextResourceMap s"
  "isResourceClearRequested (pushProgram p s) = isResourceClearRequested s"
  "isNormalVisualizationEnabled (pushProgram p s) = isNormalVisualizationEnabled s"
  "currentNodePath (pushProgram p s) = currentNodePath s"
  "pickingNodePathList (pushProgram p s) = pickingNodePathList s"
  "pickedNodePath (pushProgram p s) = pickedNodePath s"
  "pickedPoint (pushProgram p s) = pickedPoint s"
  "solidColor (pushProgram p s) = solidColor s"
  "resources (pushProgram p s) = resources s"
  "nextHandle (pushProgram p s) = nextHandle s"
  "nextLineSet (pushProgram p s) = nextLineSet s"
  "glCalls (pushProgram p s) = glCalls s"
  "programStack (pushProgram p s) = programStack s @ [currentProgram s]"
  "currentProgram (pushProgram p s) = Some p"
  by (simp_all add: pushProgram_def)

lemma popProgram_fields [simp]:
  "isActuallyRendering (popProgram s) = isActuallyRendering s"
  "isPicking (popProgram s) = isPicking s"
  "isRenderingShadowMap (popProgram s) = isRenderingShadowMap s"
  "modelMatrixStack (popProgram s) = modelMatrixStack s"
  "postRenderingFunctions (popProgram s) = postRenderingFunctions s"
  "transparentRenderingFunctions (popProgram s) = transparentRenderingFunctions s"
  "resourceMaps (popProgram s) = resourceMaps s"
  "currentResourceMapIndex (popProgram s) = currentResourceMapIndex s"
  "doUnusedResourceCheck (popProgram s) = doUnusedResourceCheck s"
  "isCheckingUnusedResources (popProgram s) = isCheckingUnusedResources s"
  "hasValidNextResourceMap (popProgram s) = hasValidNextResourceMap s"
  "isResourceClearRequested (popProgram s) = isResourceClearRequested s"
  "isNormalVisualizationEnabled (popProgram s) = isNormalVisualizationEnabled s"
  "currentNodePath (popProgram s) = currentNodePath s"
  "pickingNodePathList (popProgram s) = pickingNodePathList s"
  "pickedNodePath (popProgram s) = pickedNodePath s"
  "pickedPoint (popProgram s) = pickedPoint s"
  "solidColor (popProgram s) = solidColor s"
  "resources (popProgram s) = resources s"
  "nextHandle (popProgram s) = nextHandle s"
  "nextLineSet (popProgram s) = nextLineSet s"
  "glCalls (popProgram s) = glCalls s"
  "programStack (popProgram s) = butlast (programStack s)"
  "currentProgram (popProgram s)
     = (if programStack s = [] then currentProgram s else last (programStack s))"
  by (simp_all add: popProgram_def)

lemma setPickColor_fields [simp]:
  "currentProgram (setPickColor pid s) = currentProgram s"
  "programStack (setPickColor pid s) = programStack s"
  "isActuallyRendering (setPickColor pid s) = isActuallyRendering s"
  "isPicking (setPickColor pid s) = isPicking s"
  "isRenderingShadowMap (setPickColor pid s) = isRenderingShadowMap s"
  "modelMatrixStack (setPickColor pid s) = modelMatrixStack s"
  "postRenderingFunctions (setPickColor pid s) = postRenderingFunctions s"
  "transparentRenderingFunctions (setPickColor pid s) = transparentRenderingFunctions s"
  "resourceMaps (setPickColor pid s) = resourceMaps s"
  "currentResourceMapIndex (setPickColor pid s) = currentResourceMapIndex s"
  "doUnusedResourceCheck (setPickColor pid s) = doUnusedResourceCheck s"
  "isCheckingUnusedResources (setPickColor pid s) = isCheckingUnusedResources s"
  "hasValidNextResourceMap (setPickColor pid s) = hasValidNextResourceMap s"
  "isResourceClearRequested (setPickColor pid s) = isResourceClearRequested s"
  "isNormalVisualizationEnabled (setPickColor pid s) = isNormalVisualizationEnabled s"
  "currentNodePath (setPickColor pid s) = currentNodePath s"
  "pickingNodePathList (setPickColor pid s) = pickingNodePathList s"
  "pickedNodePath (setPickColor pid s) = pickedNodePath s"
  "pickedPoint (setPickColor pid s) = pickedPoint s"
  "resources (setPickColor pid s) = resources s"
  "nextHandle (setPickColor pid s) = nextHandle s"
  "nextLineSet (setPickColor pid s) = nextLineSet s"
  "glCalls (setPickColor pid s) = glCalls s"
  by (simp_all add: setPickColor_def)

lemma pushPickId_fields [simp]:
  "currentProgram (snd (pushPickId node c s)) = currentProgram s"
  "programStack (snd (pushPickId node c s)) = programStack s"
  "isActuallyRendering (snd (pushPickId node c s)) = isActuallyRendering s"
  "isPicking (snd (pushPickId node c s)) = isPicking s"
  "isRenderingShadowMap (snd (pushPickId node c s)) = isRenderingShadowMap s"
  "modelMatrixStack (snd (pushPickId node c s)) = modelMatrixStack s"
  "postRenderingFunctions (snd (pushPickId node c s)) = postRenderingFunctions s"
  "transparentRenderingFunctions (snd (pushPickId node c s))
     = transparentRenderingFunctions s"
  "resourceMaps (snd (pushPickId node c s)) = resourceMaps s"
  "currentResourceMapIndex (snd (pushPickId node c s)) = currentResourceMapIndex s"
  "doUnusedResourceCheck (snd (pushPickId node c s)) = doUnusedResourceCheck s"
  "isCheckingUnusedResources (snd (pushPickId node c s)) = isCheckingUnusedResources s"
  "hasValidNextResourceMap (snd (pushPickId node c s)) = hasValidNextResourceMap s"
  "isResourceClearRequested (snd (pushPickId node c s)) = isResourceClearRequested s"
  "isNormalVisualizationEnabled (snd (pushPickId node c s)) = isNormalVisualizationEnabled s"
  "pickedNodePath (snd (pushPickId node c s)) = pickedNodePath s"
  "pickedPoint (snd (pushPickId node c s)) = pickedPoint s"
  "resources (snd (pushPickId node c s)) = resources s"
  "nextHandle (snd (pushPickId node c s)) = nextHandle s"
  "nextLineSet (snd (pushPickId node c s)) = nextLineSet s"
  "glCalls (snd (pushPickId node c s)) = glCalls s"
  "currentNodePath (snd (pushPickId node c s))
     = (if isPicking s then currentNodePath s @ [node] else currentNodePath s)"
  "pickingNodePathList (snd (pushPickId node c s))
     = (if isPicking s then pickingNodePathList s @ [currentNodePath s @ [node]]
        else pickingNodePathList s)"
  by (simp_all add: pushPickId_def setPickColor_def Let_def)

lemma popPickId_fields [simp]:
  "currentProgram (popPickId s) = currentProgram s"
  "programStack (popPickId s) = programStack s"
  "isActuallyRendering (popPickId s) = isActuallyRendering s"
  "isPicking (popPickId s) = isPicking s"
  "isRenderingShadowMap (popPickId s) = isRenderingShadowMap s"
  "modelMatrixStack (popPickId s) = modelMatrixStack s"
  "postRenderingFunctions (popPickId s) = postRenderingFunctions s"
  "transparentRenderingFunctions (popPickId s) = transparentRenderingFunctions s"
  "resourceMaps (popPickId s) = resourceMaps s"
  "currentResourceMapIndex (popPickId s) = currentResourceMapIndex s"
  "doUnusedResourceCheck (popPickId s) = doUnusedResourceCheck s"
  "isCheckingUnusedResources (popPickId s) = isCheckingUnusedResources s"
  "hasValidNextResourceMap (popPickId s) = hasValidNextResourceMap s"
  "isResourceClearRequested (popPickId s) = isResourceClearRequested s"
  "isNormalVisualizationEnabled (popPickId s) = isNormalVisualizationEnabled s"
  "pickingNodePathList (popPickId s) = pickingNodePathList s"
  "pickedNodePath (popPickId s) = pickedNodePath s"
  "pickedPoint (popPickId s) = pickedPoint s"
  "solidColor (popPickId s) = solidColor s"
  "resources (popPickId s) = resources s"
  "nextHandle (popPickId s) = nextHandle s"
  "nextLineSet (popPickId s) = nextLineSet s"
  "glCalls (popPickId s) = glCalls s"
  "currentNodePath (popPickId s)
     = (if isPicking s then butlast (currentNodePath s) else currentNodePath s)"
  by (simp_all add: popPickId_def)

lemma drawVertexResource_fields [simp]:
  "currentProgram (drawVertexResource d h md pos s) = currentProgram s"
  "programStack (drawVertexResource d h md pos s) = programStack s"
  "isActuallyRendering (drawVertexResource d h md pos s) = isActuallyRendering s"
  "isPicking (drawVertexResource d h md pos s) = isPicking s"
  "isRenderingShadowMap (drawVertexResource d h md pos s) = isRenderingShadowMap s"
  "modelMatrixStack (drawVertexResource d h md pos s) = modelMatrixStack s"
  "postRenderingFunctions (drawVertexResource d h md pos s) = postRenderingFunctions s"
  "transparentRenderingFunctions (drawVertexResource d h md pos s)
     = transparentRenderingFunctions s"
  "resourceMaps (drawVertexResource d h md pos s) = resourceMaps s"
  "currentResourceMapIndex (drawVertexResource d h md pos s) = currentResourceMapIndex s"
  "doUnusedResourceCheck (drawVertexResource d h md pos s) = doUnusedResourceCheck s"
  "isCheckingUnusedResources (drawVertexResource d h md pos s) = isCheckingUnusedResources s"
  "hasValidNextResourceMap (drawVertexResource d h md pos s) = hasValidNextResourceMap s"
  "isResourceClearRequested (drawVertexResource d h md pos s) = isResourceClearRequested s"
  "isNormalVisualizationEnabled (drawVertexResource d h md pos s)
     = isNormalVisualizationEnabled s"
  "currentNodePath (drawVertexResource d h md pos s) = currentNodePath s"
  "pickingNodePathList (drawVertexResource d h md pos s) = pickingNodePathList s"
  "pickedNodePath (drawVertexResource d h md pos s) = pickedNodePath s"
  "pickedPoint (drawVertexResource d h md pos s) = pickedPoint s"
  "solidColor (drawVertexResource d h md pos s) = solidColor s"
  "resources (drawVertexResource d h md pos s) = resources s"
  "nextHandle (drawVertexResource d h md pos s) = nextHandle s"
  "nextLineSet (drawVertexResource d h md pos s) = nextLineSet s"
  "glCalls (drawVertexResource d h md pos s) = glCalls s @ [GlDrawArrays d h md pos]"
  by (simp_all add: drawVertexResource_def)

declare renderGroup.simps [simp del]

subsection \<open>The traversal restores the stacks\<close>

lemma traversalFrame_updates [simp]:
  "traversalFrame (snd (getOrCreateVertexResource obj s)) = traversalFrame s"
  "traversalFrame (updateResource h f s) = traversalFrame s"
  "traversalFrame (writeMeshVertices m h s) = traversalFrame s"
  "traversalFrame (setPickColor pid s) = traversalFrame s"
  "traversalFrame (drawVertexResource d h md pos s) = traversalFrame s"
  "traversalFrame (s\<lparr>glCalls := calls\<rparr>) = traversalFrame s"
  "traversalFrame (s\<lparr>transparentRenderingFunctions := tr\<rparr>) = traversalFrame s"
  "traversalFrame (s\<lparr>postRenderingFunctions := po\<rparr>) = traversalFrame s"
  by (simp_all add: traversalFrame_def)

lemma traversalFrame_pick:
  "traversalFrame t = traversalFrame (snd (pushPickId node c s))
   \<Longrightarrow> traversalFrame (popPickId t) = traversalFrame s"
  by (simp add: traversalFrame_def)

lemma traversalFrame_program:
  "traversalFrame t = traversalFrame (pushProgram p s)
   \<Longrightarrow> traversalFrame (popProgram t) = traversalFrame s"
  by (simp add: traversalFrame_def)

lemma traversalFrame_matrix:
  "traversalFrame t = traversalFrame (s\<lparr>modelMatrixStack := modelMatrixStack s @ [T]\<rparr>)
   \<Longrightarrow> traversalFrame (t\<lparr>modelMatrixStack := butlast (modelMatrixStack t)\<rparr>) = traversalFrame s"
  by (simp add: traversalFrame_def)

lemma renderPlot_traversalFrame [simp]:
  "traversalFrame (renderPlot plot md n s) = traversalFrame s"
  by (simp add: renderPlot_def Let_def case_prod_beta traversalFrame_pick)

lemma renderPointSet_traversalFrame [simp]:
  "traversalFrame (renderPointSet plot s) = traversalFrame s"
  by (simp add: renderPointSet_def Let_def traversalFrame_program)

lemma renderLineSet_traversalFrame [simp]:
  "traversalFrame (renderLineSet plot s) = traversalFrame s"
  by (simp add: renderLineSet_def Let_def traversalFrame_program)

lemma renderShapeMain_traversalFrame [simp]:
  "traversalFrame (renderShapeMain shape pos pid s) = traversalFrame s"
  by (simp add: renderShapeMain_def Let_def case_prod_beta split: option.splits)

lemma renderShape_traversalFrame [simp]:
  "traversalFrame (renderShape shape s) = traversalFrame s"
  by (simp add: renderShape_def Let_def case_prod_beta traversalFrame_pick split: option.splits)

lemma render_traversalFrame [simp]:
  "traversalFrame (render n s) = traversalFrame s"
  "traversalFrame (renderChildNodes cs s) = traversalFrame s"
  "traversalFrame (renderGroup g cs s) = traversalFrame s"
proof (induction n s and cs s and g cs s rule: render_renderChildNodes_renderGroup.induct)
  case (2 g T cs s)
  then show ?case by (simp add: traversalFrame_def Let_def)
next
  case (8 g cs s)
  then show ?case by (simp add: traversalFrame_def Let_def)
next
  case (9 g cs s)
  then show ?case by (simp add: traversalFrame_def Let_def)
next
  case (10 g cs s)
  then show ?case by (cases "isPicking s") (simp_all add: traversalFrame_def Let_def)
next
  case (13 g cs s)
  then show ?case by (simp add: traversalFrame_def Let_def renderGroup.simps)
qed simp_all

subsection \<open>The calls of a traversal\<close>

lemma deferralsOf_append [simp]: "deferralsOf (a @ b) = deferralsOf a @ deferralsOf b"
  by (induction a rule: deferralsOf.induct) simp_all

lemma shapeDrawsOf_append [simp]: "shapeDrawsOf (a @ b) = shapeDrawsOf a @ shapeDrawsOf b"
  by (induction a rule: shapeDrawsOf.induct) simp_all

lemma traverses_refl [simp]: "traverses s s"
  by (simp add: traverses_def)

lemma traverses_trans: "traverses s t \<Longrightarrow> traverses t u \<Longrightarrow> traverses s u"
proof -
  assume st: "traverses s t" and tu: "traverses t u"
  from st obtain L where L:
    "isRenderingShadowMap t = isRenderingShadowMap s"
    "glCalls t = glCalls s @ L"
    "transparentRenderingFunctions t = transparentRenderingFunctions s @ deferralsOf L"
    "list_all (\<lambda>e. \<not> isTransparentDraw e) L"
    "list_all (\<lambda>(shape, position, pickId). isTransparent shape \<and> mesh shape \<noteq> None)
       (deferralsOf L)"
    "isRenderingShadowMap s \<longrightarrow> deferralsOf L = []"
    unfolding traverses_def by blast
  from tu obtain M where M:
    "isRenderingShadowMap u = isRenderingShadowMap t"
    "glCalls u = glCalls t @ M"
    "transparentRenderingFunctions u = transparentRenderingFunctions t @ deferralsOf M"
    "list_all (\<lambda>e. \<not> isTransparentDraw e) M"
    "list_all (\<lambda>(shape, position, pickId). isTransparent shape \<and> mesh shape \<noteq> None)
       (deferralsOf M)"
    "isRenderingShadowMap t \<longrightarrow> deferralsOf M = []"
    unfolding traverses_def by blast
  show "traverses s u"
    unfolding traverses_def
  proof (intro conjI exI [of _ "L @ M"])
    show "isRenderingShadowMap u = isRenderingShadowMap s" using L(1) M(1) by simp
    show "glCalls u = glCalls s @ L @ M" using L(2) M(2) by simp
    show "transparentRenderingFunctions u
            = transparentRenderingFunctions s @ deferralsOf (L @ M)"
      using L(3) M(3) by simp
    show "list_all (\<lambda>e. \<not> isTransparentDraw e) (L @ M)" using L(4) M(4) by simp
    show "list_all (\<lambda>(shape, position, pickId). isTransparent shape \<and> mesh shape \<noteq> None)
            (deferralsOf (L @ M))"
      using L(5) M(5) by simp
    show "isRenderingShadowMap s \<longrightarrow> deferralsOf (L @ M) = []"
      using L(1) L(6) M(6) by simp
  qed
qed

lemma traverses_right [simp]:
  "traverses s (popPickId t) = traverses s t"
  "traverses s (popProgram t) = traverses s t"
  "traverses s (pushProgram p t) = traverses s t"
  "traverses s (snd (pushPickId node c t)) = traverses s t"
  "traverses s (setPickColor pid t) = traverses s t"
  "traverses s (snd (getOrCreateVertexResource obj t)) = traverses s t"
  "traverses s (updateResource h f t) = traverses s t"
  "traverses s (writeMeshVertices m h t) = traverses s t"
  "traverses s (t\<lparr>modelMatrixStack := st\<rparr>) = traverses s t"
  "traverses s (t\<lparr>postRenderingFunctions := po\<rparr>) = traverses s t"
  by (simp_all add: traverses_def)

lemma traverses_left [simp]:
  "traverses (popPickId s) t = traverses s t"
  "traverses (popProgram s) t = traverses s t"
  "traverses (pushProgram p s) t = traverses s t"
  "traverses (snd (pushPickId node c s)) t = traverses s t"
  "traverses (setPickColor pid s) t = traverses s t"
  "traverses (snd (getOrCreateVertexResource obj s)) t = traverses s t"
  "traverses (updateResource h f s) t = traverses s t"
  "traverses (writeMeshVertices m h s) t = traverses s t"
  "traverses (s\<lparr>modelMatrixStack := st\<rparr>) t = traverses s t"
  "traverses (s\<lparr>postRenderingFunctions := po\<rparr>) t = traverses s t"
  by (simp_all add: traverses_def)

lemma traverses_draw:
  assumes "traverses s t" and "\<not> isTransparentDraw (GlDrawArrays d h md pos)"
  shows "traverses s (drawVertexResource d h md pos t)"
proof -
  have "traverses t (drawVertexResource d h md pos t)"
    unfolding traverses_def using assms(2)
    by (intro conjI exI [of _ "[GlDrawArrays d h md pos]"]) simp_all
  with assms(1) show ?thesis by (rule traverses_trans)
qed

lemma traverses_defer:
  assumes "traverses s t" and "\<not> isRenderingShadowMap t"
    and "isTransparent shape" and "mesh shape \<noteq> None"
  shows "traverses s
           (t\<lparr>transparentRenderingFunctions :=
                 transparentRenderingFunctions t @ [(shape, pos, pid)],
               glCalls := glCalls t @ [Deferred shape pos pid]\<rparr>)"
proof -
  have "traverses t
          (t\<lparr>transparentRenderingFunctions :=
                transparentRenderingFunctions t @ [(shape, pos, pid)],
              glCalls := glCalls t @ [Deferred shape pos pid]\<rparr>)"
    unfolding traverses_def using assms(2-4)
    by (intro conjI exI [of _ "[Deferred shape pos pid]"]) simp_all
  with assms(1) show ?thesis by (rule traverses_trans)
qed

lemma renderPlot_traverses: "traverses s (renderPlot plot md n s)"
  by (simp add: renderPlot_def Let_def case_prod_beta traverses_draw)

lemma renderPointSet_traverses: "traverses s (renderPointSet plot s)"
  using renderPlot_traverses [of "pushProgram SolidColorProgram s" plot]
  by (simp add: renderPointSet_def Let_def)

lemma renderLineSet_traverses: "traverses s (renderLineSet plot s)"
  using renderPlot_traverses [of "pushProgram SolidColorProgram s" plot]
  by (simp add: renderLineSet_def Let_def)

lemma traverses_renderLineSet:
  assumes "traverses s t"
  shows "traverses s (renderLineSet plot t)"
  using assms renderLineSet_traverses [of t plot] by (rule traverses_trans)

text \<open>
  \<^verbatim>\<open>renderShapeMain\<close> of a shape with a mesh issues the draw call of the shape and then,
  when normals are visualised, renders the line set of the resource.
\<close>

lemma renderShapeMain_cases:
  assumes "mesh shape = Some m"
  obtains r t where
      "glCalls t = glCalls s"
      "transparentRenderingFunctions t = transparentRenderingFunctions s"
      "isRenderingShadowMap t = isRenderingShadowMap s"
      "renderShapeMain shape pos pid s
         = drawVertexResource (ShapeDrawable shape) r GL_TRIANGLES pos t"
  | r t g where
      "glCalls t = glCalls s"
      "transparentRenderingFunctions t = transparentRenderingFunctions s"
      "isRenderingShadowMap t = isRenderingShadowMap s"
      "renderShapeMain shape pos pid s
         = renderLineSet (normalVisualizationLineSet g)
             (drawVertexResource (ShapeDrawable shape) r GL_TRIANGLES pos t)"
proof -
  define s1 where "s1 = (if isPicking s then setPickColor pid s else s)"
  define gc where "gc = getOrCreateVertexResource (SceneObject (meshObject m)) s1"
  define s3 where
    "s3 = (if \<not> isValid (fst gc) (snd gc) then writeMeshVertices m (fst gc) (snd gc)
           else snd gc)"
  define s4 where "s4 = drawVertexResource (ShapeDrawable shape) (fst gc) GL_TRIANGLES pos s3"
  have eq: "renderShapeMain shape pos pid s =
      (if isNormalVisualizationEnabled s4 \<and> isActuallyRendering s4
       then (case Option.bind (resources s4 (fst gc)) normalVisualization of
               None \<Rightarrow> s4
             | Some g \<Rightarrow> renderLineSet (normalVisualizationLineSet g) s4)
       else s4)"
    unfolding renderShapeMain_def s4_def s3_def gc_def s1_def
    by (simp only: assms option.case Let_def case_prod_beta)
  have fr: "glCalls s3 = glCalls s"
    "transparentRenderingFunctions s3 = transparentRenderingFunctions s"
    "isRenderingShadowMap s3 = isRenderingShadowMap s"
    by (simp_all add: s3_def gc_def s1_def)
  show thesis
  proof (cases "isNormalVisualizationEnabled s4 \<and> isActuallyRendering s4")
    case False
    with eq have "renderShapeMain shape pos pid s = s4" by simp
    with fr that(1) show thesis unfolding s4_def by blast
  next
    case True
    show thesis
    proof (cases "Option.bind (resources s4 (fst gc)) normalVisualization")
      case None
      with eq True have "renderShapeMain shape pos pid s = s4" by simp
      with fr that(1) show thesis unfolding s4_def by blast
    next
      case (Some g)
      with eq True have
        "renderShapeMain shape pos pid s = renderLineSet (normalVisualizationLineSet g) s4"
        by simp
      with fr that(2) show thesis unfolding s4_def by blast
    qed
  qed
qed

lemma renderShapeMain_traverses:
  assumes "\<not> isTransparent shape"
  shows "traverses s (renderShapeMain shape pos pid s)"
proof (cases "mesh shape")
  case None
  then show ?thesis by (simp add: renderShapeMain_def)
next
  case (Some m)
  have base: "traverses s t" if "glCalls t = glCalls s"
    "transparentRenderingFunctions t = transparentRenderingFunctions s"
    "isRenderingShadowMap t = isRenderingShadowMap s" for t
    using that by (simp add: traverses_def)
  from Some show ?thesis
  proof (cases rule: renderShapeMain_cases [where s = s and pos = pos and pid = pid])
    case (1 r t)
    then show ?thesis using assms by (simp add: base traverses_draw)
  next
    case (2 r t g)
    then show ?thesis using assms by (simp add: base traverses_draw traverses_renderLineSet)
  qed
qed

lemma renderShape_traverses: "traverses s (renderShape shape s)"
proof -
  have drawn: "\<not> isTransparent shape \<Longrightarrow>
      traverses s (renderShapeMain shape pos pid (snd (pushPickId node c s)))"
    for pos pid node c
    using renderShapeMain_traverses [of shape "snd (pushPickId node c s)" pos pid] by simp
  have deferred: "isTransparent shape \<Longrightarrow> mesh shape \<noteq> None \<Longrightarrow> \<not> isRenderingShadowMap s \<Longrightarrow>
      traverses s
        ((snd (pushPickId node c s))
           \<lparr>transparentRenderingFunctions :=
              transparentRenderingFunctions s @ [(shape, pos, pid)],
            glCalls := glCalls s @ [Deferred shape pos pid]\<rparr>)"
    for pos pid node c
    using traverses_defer [of s "snd (pushPickId node c s)" shape pos pid] by simp
  show ?thesis
    by (auto simp add: renderShape_def Let_def case_prod_beta drawn deferred
        split: option.splits)
qed

lemma render_traverses:
  "traverses s (render n s)"
  "traverses s (renderChildNodes cs s)"
  "traverses s (renderGroup g cs s)"
proof (induction n s and cs s and g cs s rule: render_renderChildNodes_renderGroup.induct)
  case (1 g cs s)
  then show ?case by simp
next
  case (2 g T cs s)
  from 2 [OF refl refl] show ?case by (simp add: Let_def)
next
  case (3 g isTurnedOn cs s)
  then show ?case by simp
next
  case (4 g cs s)
  then show ?case by simp
next
  case (5 shape s)
  show ?case by (simp add: renderShape_traverses)
next
  case (6 g n s)
  show ?case by (simp add: renderPointSet_traverses)
next
  case (7 g n numLines s)
  show ?case by (simp add: renderLineSet_traverses)
next
  case (8 g cs s)
  show ?case
  proof (cases "isActuallyRendering s")
    case True
    from 8 [OF _ refl refl] True show ?thesis by (simp add: Let_def)
  next
    case False
    then show ?thesis by simp
  qed
next
  case (9 g cs s)
  then show ?case by simp
next
  case (10 g cs s)
  show ?case
  proof (cases "isRenderingShadowMap s")
    case True
    then show ?thesis by simp
  next
    case False
    from 10 [OF False refl] show ?thesis
      using False by (cases "isPicking s") (simp_all add: Let_def)
  qed
next
  case (11 s)
  show ?case by simp
next
  case (12 c cs s)
  then show ?case using traverses_trans by auto
next
  case (13 g cs s)
  from 13 [OF refl] show ?case by (simp add: Let_def renderGroup.simps)
qed

subsection \<open>The recorded pick paths are not empty\<close>

lemma pickPathsOk_updates [simp]:
  "pickPathsOk (popPickId s) = pickPathsOk s"
  "pickPathsOk (popProgram s) = pickPathsOk s"
  "pickPathsOk (pushProgram p s) = pickPathsOk s"
  "pickPathsOk (snd (pushPickId node c s)) = pickPathsOk s"
  "pickPathsOk (setPickColor pid s) = pickPathsOk s"
  "pickPathsOk (snd (getOrCreateVertexResource obj s)) = pickPathsOk s"
  "pickPathsOk (updateResource h f s) = pickPathsOk s"
  "pickPathsOk (writeMeshVertices m h s) = pickPathsOk s"
  "pickPathsOk (drawVertexResource d h md pos s) = pickPathsOk s"
  "pickPathsOk (s\<lparr>modelMatrixStack := st\<rparr>) = pickPathsOk s"
  "pickPathsOk (s\<lparr>postRenderingFunctions := po\<rparr>) = pickPathsOk s"
  "pickPathsOk (s\<lparr>transparentRenderingFunctions := tr\<rparr>) = pickPathsOk s"
  "pickPathsOk (s\<lparr>glCalls := calls\<rparr>) = pickPathsOk s"
  by (simp_all add: pickPathsOk_def)

lemma renderPlot_pickPathsOk [simp]: "pickPathsOk (renderPlot plot md n s) = pickPathsOk s"
  by (simp add: renderPlot_def Let_def case_prod_beta)

lemma renderPointSet_pickPathsOk [simp]: "pickPathsOk (renderPointSet plot s) = pickPathsOk s"
  by (simp add: renderPointSet_def Let_def)

lemma renderLineSet_pickPathsOk [simp]: "pickPathsOk (renderLineSet plot s) = pickPathsOk s"
  by (simp add: renderLineSet_def Let_def)

lemma renderShapeMain_pickPathsOk [simp]:
  "pickPathsOk (renderShapeMain shape pos pid s) = pickPathsOk s"
  by (simp add: renderShapeMain_def Let_def case_prod_beta split: option.splits)

lemma renderShape_pickPathsOk [simp]: "pickPathsOk (renderShape shape s) = pickPathsOk s"
  by (simp add: renderShape_def Let_def case_prod_beta split: option.splits)

lemma render_pickPathsOk [simp]:
  "pickPathsOk (render n s) = pickPathsOk s"
  "pickPathsOk (renderChildNodes cs s) = pickPathsOk s"
  "pickPathsOk (renderGroup g cs s) = pickPathsOk s"
proof (induction n s and cs s and g cs s rule: render_renderChildNodes_renderGroup.induct)
  case (2 g T cs s)
  then show ?case by (simp add: Let_def)
next
  case (8 g cs s)
  then show ?case by (simp add: Let_def)
next
  case (10 g cs s)
  then show ?case by (cases "isPicking s") (simp_all add: Let_def)
next
  case (13 g cs s)
  then show ?case by (simp add: Let_def renderGroup.simps)
qed simp_all

subsection \<open>The passes of a frame\<close>

lemma beginRendering_fields [simp]:
  "currentProgram (beginRendering s) = currentProgram s"
  "programStack (beginRendering s) = programStack s"
  "isActuallyRendering (beginRendering s) = isActuallyRendering s"
  "isPicking (beginRendering s) = isPicking s"
  "isRenderingShadowMap (beginRendering s) = isRenderingShadowMap s"
  "modelMatrixStack (beginRendering s) = modelMatrixStack s"
  "postRenderingFunctions (beginRendering s) = postRenderingFunctions s"
  "transparentRenderingFunctions (beginRendering s) = transparentRenderingFunctions s"
  "doUnusedResourceCheck (beginRendering s) = doUnusedResourceCheck s"
  "isNormalVisualizationEnabled (beginRendering s) = isNormalVisualizationEnabled s"
  "currentNodePath (beginRendering s) = currentNodePath s"
  "pickingNodePathList (beginRendering s) = pickingNodePathList s"
  "pickedNodePath (beginRendering s) = pickedNodePath s"
  "pickedPoint (beginRendering s) = pickedPoint s"
  "solidColor (beginRendering s) = solidColor s"
  "resources (beginRendering s) = resources s"
  "nextHandle (beginRendering s) = nextHandle s"
  "nextLineSet (beginRendering s) = nextLineSet s"
  "glCalls (beginRendering s) = glCalls s"
  by (simp_all add: beginRendering_def Let_def)

lemma endRendering_fields [simp]:
  "currentProgram (endRendering s) = currentProgram s"
  "programStack (endRendering s) = programStack s"
  "isActuallyRendering (endRendering s) = isActuallyRendering s"
  "isPicking (endRendering s) = isPicking s"
  "isRenderingShadowMap (endRendering s) = isRenderingShadowMap s"
  "modelMatrixStack (endRendering s) = modelMatrixStack s"
  "postRenderingFunctions (endRendering s) = postRenderingFunctions s"
  "transparentRenderingFunctions (endRendering s) = transparentRenderingFunctions s"
  "currentResourceMapIndex (endRendering s) = currentResourceMapIndex s"
  "doUnusedResourceCheck (endRendering s) = doUnusedResourceCheck s"
  "isCheckingUnusedResources (endRendering s) = isCheckingUnusedResources s"
  "isResourceClearRequested (endRendering s) = isResourceClearRequested s"
  "isNormalVisualizationEnabled (endRendering s) = isNormalVisualizationEnabled s"
  "currentNodePath (endRendering s) = currentNodePath s"
  "pickingNodePathList (endRendering s) = pickingNodePathList s"
  "pickedNodePath (endRendering s) = pickedNodePath s"
  "pickedPoint (endRendering s) = pickedPoint s"
  "solidColor (endRendering s) = solidColor s"
  "resources (endRendering s) = resources s"
  "nextHandle (endRendering s) = nextHandle s"
  "nextLineSet (endRendering s) = nextLineSet s"
  "glCalls (endRendering s) = glCalls s"
  by (simp_all add: endRendering_def)

lemma renderCamera_fields [simp]:
  "currentProgram (renderCamera s) = currentProgram s"
  "programStack (renderCamera s) = programStack s"
  "isActuallyRendering (renderCamera s) = isActuallyRendering s"
  "isPicking (renderCamera s) = isPicking s"
  "isRenderingShadowMap (renderCamera s) = isRenderingShadowMap s"
  "postRenderingFunctions (renderCamera s) = postRenderingFunctions s"
  "transparentRenderingFunctions (renderCamera s) = transparentRenderingFunctions s"
  "resourceMaps (renderCamera s) = resourceMaps s"
  "currentResourceMapIndex (renderCamera s) = currentResourceMapIndex s"
  "doUnusedResourceCheck (renderCamera s) = doUnusedResourceCheck s"
  "isCheckingUnusedResources (renderCamera s) = isCheckingUnusedResources s"
  "hasValidNextResourceMap (renderCamera s) = hasValidNextResourceMap s"
  "isResourceClearRequested (renderCamera s) = isResourceClearRequested s"
  "isNormalVisualizationEnabled (renderCamera s) = isNormalVisualizationEnabled s"
  "currentNodePath (renderCamera s) = currentNodePath s"
  "pickingNodePathList (renderCamera s) = pickingNodePathList s"
  "pickedNodePath (renderCamera s) = pickedNodePath s"
  "pickedPoint (renderCamera s) = pickedPoint s"
  "solidColor (renderCamera s) = solidColor s"
  "resources (renderCamera s) = resources s"
  "nextHandle (renderCamera s) = nextHandle s"
  "nextLineSet (renderCamera s) = nextLineSet s"
  "glCalls (renderCamera s) = glCalls s"
  by (simp_all add: renderCamera_def)

lemma renderCamera_relations [simp]:
  "traverses s (renderCamera t) = traverses s t"
  "traverses (renderCamera s) t = traverses s t"
  "pickPathsOk (renderCamera s) = pickPathsOk s"
  by (simp_all add: traverses_def pickPathsOk_def)

lemma renderOutlineGroupMain_traversalFrame [simp]:
  "traversalFrame (renderOutlineGroupMain outline T s) = traversalFrame s"
proof -
  have "traversalFrame (renderChildNodes cs t) = traversalFrame t" for cs and t :: "'a Impl"
    by simp
  then show ?thesis
    by (simp add: renderOutlineGroupMain_def Let_def traversalFrame_def)
qed

lemma renderOutlineGroupMain_traverses: "traverses s (renderOutlineGroupMain outline T s)"
proof -
  define s1 where "s1 = s\<lparr>modelMatrixStack := modelMatrixStack s @ [T]\<rparr>"
  define s2 where "s2 = renderChildNodes (snd outline) s1"
  define s3 where "s3 = pushProgram SolidColorProgram s2"
  define s4 where "s4 = renderChildNodes (snd outline) s3"
  have "traverses s1 s2" unfolding s2_def by (rule render_traverses)
  then have a: "traverses s s2" by (simp add: s1_def)
  have "traverses s3 s4" unfolding s4_def by (rule render_traverses)
  then have b: "traverses s2 s4" by (simp add: s3_def)
  from a b have "traverses s s4" by (rule traverses_trans)
  then show ?thesis
    by (simp add: renderOutlineGroupMain_def Let_def s4_def s3_def s2_def s1_def)
qed

lemma renderOutlineGroupMain_pickPathsOk [simp]:
  "pickPathsOk (renderOutlineGroupMain outline T s) = pickPathsOk s"
  by (simp add: renderOutlineGroupMain_def Let_def)

lemma postRendering_traversalFrame [simp]:
  "traversalFrame (foldl (\<lambda>t (outline, T). renderOutlineGroupMain outline T t) s ps)
     = traversalFrame s"
  by (induction ps arbitrary: s) (simp_all add: case_prod_beta)

lemma postRendering_pickPathsOk [simp]:
  "pickPathsOk (foldl (\<lambda>t (outline, T). renderOutlineGroupMain outline T t) s ps)
     = pickPathsOk s"
  by (induction ps arbitrary: s) (simp_all add: case_prod_beta)

lemma postRendering_traverses:
  "traverses s (foldl (\<lambda>t (outline, T). renderOutlineGroupMain outline T t) s ps)"
proof (induction ps arbitrary: s)
  case Nil
  show ?case by simp
next
  case (Cons p ps)
  obtain outline T where p: "p = (outline, T)" by (cases p)
  have "traverses s (renderOutlineGroupMain outline T s)"
    by (rule renderOutlineGroupMain_traverses)
  moreover have "traverses (renderOutlineGroupMain outline T s)
      (foldl (\<lambda>t (outline, T). renderOutlineGroupMain outline T t)
         (renderOutlineGroupMain outline T s) ps)"
    by (rule Cons.IH)
  ultimately have "traverses s
      (foldl (\<lambda>t (outline, T). renderOutlineGroupMain outline T t)
         (renderOutlineGroupMain outline T s) ps)"
    by (rule traverses_trans)
  then show ?case by (simp add: p)
qed

subsection \<open>The transparent pass\<close>

lemma renderPlot_glCalls:
  "glCalls (renderPlot plot md n s) =
     glCalls s @ [GlDrawArrays (PlotDrawable plot)
        (fst (getOrCreateVertexResource (plotNode plot) (snd (pushPickId (plotNode plot) True s))))
        md (last (modelMatrixStack s))]"
  by (simp add: renderPlot_def Let_def case_prod_beta)

lemma renderLineSet_transparentPass:
  assumes "isNormalVisualization (plotNode plot)"
  shows "\<exists>L. glCalls (renderLineSet plot s) = glCalls s @ L
           \<and> list_all transparentPassCall L \<and> shapeDrawsOf L = []"
proof (cases "isRenderingShadowMap s \<or> \<not> plotHasVertices plot \<or> plotNumLines plot \<le> 0")
  case True
  then have "renderLineSet plot s = s" by (auto simp add: renderLineSet_def)
  then show ?thesis by simp
next
  case False
  then have "glCalls (renderLineSet plot s) =
      glCalls s @ [GlDrawArrays (PlotDrawable plot)
        (fst (getOrCreateVertexResource (plotNode plot)
           (snd (pushPickId (plotNode plot) True (pushProgram SolidColorProgram s)))))
        GL_LINES (last (modelMatrixStack s))]"
    by (simp add: renderLineSet_def Let_def renderPlot_glCalls)
  with assms show ?thesis by simp
qed

lemma renderShapeMain_transparentPass:
  assumes "isTransparent shape" and "mesh shape \<noteq> None"
  shows "\<exists>L. glCalls (renderShapeMain shape pos pid s) = glCalls s @ L
           \<and> list_all transparentPassCall L \<and> shapeDrawsOf L = [(shape, pos)]"
proof -
  from assms(2) obtain m where m: "mesh shape = Some m" by blast
  from m show ?thesis
  proof (cases rule: renderShapeMain_cases [where s = s and pos = pos and pid = pid])
    case (1 r t)
    then have "glCalls (renderShapeMain shape pos pid s)
        = glCalls s @ [GlDrawArrays (ShapeDrawable shape) r GL_TRIANGLES pos]"
      by simp
    with assms(1) show ?thesis by simp
  next
    case (2 r t g)
    have nv: "isNormalVisualization (plotNode (normalVisualizationLineSet g))"
      by (simp add: normalVisualizationLineSet_def)
    from renderLineSet_transparentPass [OF nv] obtain L where L:
      "glCalls (renderLineSet (normalVisualizationLineSet g)
          (drawVertexResource (ShapeDrawable shape) r GL_TRIANGLES pos t))
        = glCalls (drawVertexResource (ShapeDrawable shape) r GL_TRIANGLES pos t) @ L"
      "list_all transparentPassCall L" "shapeDrawsOf L = []"
      by blast
    have "glCalls (renderShapeMain shape pos pid s)
        = glCalls s @ (GlDrawArrays (ShapeDrawable shape) r GL_TRIANGLES pos # L)"
      using 2 L(1) by simp
    moreover have "list_all transparentPassCall
        (GlDrawArrays (ShapeDrawable shape) r GL_TRIANGLES pos # L)"
      using assms(1) L(2) by simp
    moreover have "shapeDrawsOf (GlDrawArrays (ShapeDrawable shape) r GL_TRIANGLES pos # L)
        = [(shape, pos)]"
      using L(3) by simp
    ultimately show ?thesis by blast
  qed
qed

lemma transparentClosures_traversalFrame [simp]:
  "traversalFrame
     (foldl (\<lambda>t (shape, position, pickId). renderShapeMain shape position pickId t) s D)
     = traversalFrame s"
  by (induction D arbitrary: s) (simp_all add: case_prod_beta)

lemma transparentClosures_pickPathsOk [simp]:
  "pickPathsOk
     (foldl (\<lambda>t (shape, position, pickId). renderShapeMain shape position pickId t) s D)
     = pickPathsOk s"
  by (induction D arbitrary: s) (simp_all add: case_prod_beta)

lemma transparentClosures_glCalls:
  assumes "list_all (\<lambda>(shape, position, pickId). isTransparent shape \<and> mesh shape \<noteq> None) D"
  shows "\<exists>L. glCalls
             (foldl (\<lambda>t (shape, position, pickId). renderShapeMain shape position pickId t) s D)
             = glCalls s @ L
           \<and> list_all transparentPassCall L
           \<and> shapeDrawsOf L = map (\<lambda>(shape, position, pickId). (shape, position)) D"
  using assms
proof (induction D arbitrary: s)
  case Nil
  show ?case by simp
next
  case (Cons c D)
  obtain shape pos pid where c: "c = (shape, pos, pid)" by (cases c) auto
  from Cons.prems c have tr: "isTransparent shape" "mesh shape \<noteq> None"
    and rest: "list_all (\<lambda>(shape, position, pickId). isTransparent shape \<and> mesh shape \<noteq> None) D"
    by simp_all
  from renderShapeMain_transparentPass [OF tr, of pos pid s] obtain L1 where L1:
    "glCalls (renderShapeMain shape pos pid s) = glCalls s @ L1"
    "list_all transparentPassCall L1" "shapeDrawsOf L1 = [(shape, pos)]"
    by blast
  from Cons.IH [OF rest, of "renderShapeMain shape pos pid s"] obtain L2 where L2:
    "glCalls (foldl (\<lambda>t (shape, position, pickId). renderShapeMain shape position pickId t)
        (renderShapeMain shape pos pid s) D) = glCalls (renderShapeMain shape pos pid s) @ L2"
    "list_all transparentPassCall L2"
    "shapeDrawsOf L2 = map (\<lambda>(shape, position, pickId). (shape, position)) D"
    by blast
  show ?case
  proof (intro exI [of _ "L1 @ L2"] conjI)
    show "glCalls (foldl (\<lambda>t (shape, position, pickId). renderShapeMain shape position pickId t)
            s (c # D)) = glCalls s @ L1 @ L2"
      using L1(1) L2(1) c by simp
    show "list_all transparentPassCall (L1 @ L2)" using L1(2) L2(2) by simp
    show "shapeDrawsOf (L1 @ L2) = map (\<lambda>(shape, position, pickId). (shape, position)) (c # D)"
      using L1(3) L2(3) c by simp
  qed
qed

text \<open>
  Without the visualisation of normals a deferred closure issues one call, the draw call
  of its shape.
\<close>

lemma traversalFrame_normalVisualization:
  assumes "traversalFrame s = traversalFrame t"
  shows "isNormalVisualizationEnabled s = isNormalVisualizationEnabled t"
  using assms by (simp add: traversalFrame_def)

lemma renderShapeMain_plain:
  assumes "\<not> isNormalVisualizationEnabled s" and "mesh shape \<noteq> None"
  shows "\<exists>r. glCalls (renderShapeMain shape pos pid s)
           = glCalls s @ [GlDrawArrays (ShapeDrawable shape) r GL_TRIANGLES pos]"
proof -
  from assms(2) obtain m where m: "mesh shape = Some m" by blast
  from m show ?thesis
  proof (cases rule: renderShapeMain_cases [where s = s and pos = pos and pid = pid])
    case (1 r t)
    then have "glCalls (renderShapeMain shape pos pid s)
        = glCalls s @ [GlDrawArrays (ShapeDrawable shape) r GL_TRIANGLES pos]"
      by simp
    then show ?thesis ..
  next
    case (2 r t g)
    define s1 where "s1 = (if isPicking s then setPickColor pid s else s)"
    define gc where "gc = getOrCreateVertexResource (SceneObject (meshObject m)) s1"
    define s3 where
      "s3 = (if \<not> isValid (fst gc) (snd gc) then writeMeshVertices m (fst gc) (snd gc)
             else snd gc)"
    define s4 where
      "s4 = drawVertexResource (ShapeDrawable shape) (fst gc) GL_TRIANGLES pos s3"
    have "\<not> isNormalVisualizationEnabled s4"
      using assms(1) by (simp add: s4_def s3_def gc_def s1_def)
    moreover have "renderShapeMain shape pos pid s =
        (if isNormalVisualizationEnabled s4 \<and> isActuallyRendering s4
         then (case Option.bind (resources s4 (fst gc)) normalVisualization of
                 None \<Rightarrow> s4
               | Some g \<Rightarrow> renderLineSet (normalVisualizationLineSet g) s4)
         else s4)"
      unfolding renderShapeMain_def s4_def s3_def gc_def s1_def
      by (simp only: m option.case Let_def case_prod_beta)
    ultimately have "renderShapeMain shape pos pid s = s4" by simp
    moreover have "glCalls s3 = glCalls s" by (simp add: s3_def gc_def s1_def)
    ultimately have "glCalls (renderShapeMain shape pos pid s)
        = glCalls s @ [GlDrawArrays (ShapeDrawable shape) (fst gc) GL_TRIANGLES pos]"
      by (simp add: s4_def)
    then show ?thesis ..
  qed
qed

lemma transparentClosures_plain:
  assumes "\<not> isNormalVisualizationEnabled s"
    and "list_all (\<lambda>(shape, position, pickId). isTransparent shape \<and> mesh shape \<noteq> None) D"
  shows "\<exists>L. glCalls
             (foldl (\<lambda>t (shape, position, pickId). renderShapeMain shape position pickId t) s D)
             = glCalls s @ L
           \<and> list_all isTransparentDraw L"
  using assms
proof (induction D arbitrary: s)
  case Nil
  show ?case by simp
next
  case (Cons c D)
  obtain shape pos pid where c: "c = (shape, pos, pid)" by (cases c) auto
  from Cons.prems c have tr: "isTransparent shape" "mesh shape \<noteq> None"
    and rest: "list_all (\<lambda>(shape, position, pickId). isTransparent shape \<and> mesh shape \<noteq> None) D"
    by simp_all
  from renderShapeMain_plain [OF Cons.prems(1) tr(2), where pos = pos and pid = pid]
  obtain r where r:
    "glCalls (renderShapeMain shape pos pid s)
       = glCalls s @ [GlDrawArrays (ShapeDrawable shape) r GL_TRIANGLES pos]"
    by blast
  have "isNormalVisualizationEnabled (renderShapeMain shape pos pid s)
      = isNormalVisualizationEnabled s"
    by (rule traversalFrame_normalVisualization) simp
  with Cons.prems(1) have off: "\<not> isNormalVisualizationEnabled (renderShapeMain shape pos pid s)"
    by simp
  from Cons.IH [OF off rest] obtain L where L:
    "glCalls (foldl (\<lambda>t (shape, position, pickId). renderShapeMain shape position pickId t)
        (renderShapeMain shape pos pid s) D) = glCalls (renderShapeMain shape pos pid s) @ L"
    "list_all isTransparentDraw L"
    by blast
  show ?case
  proof (intro exI [of _ "GlDrawArrays (ShapeDrawable shape) r GL_TRIANGLES pos # L"] conjI)
    show "glCalls (foldl (\<lambda>t (shape, position, pickId). renderShapeMain shape position pickId t)
            s (c # D)) = glCalls s @ GlDrawArrays (ShapeDrawable shape) r GL_TRIANGLES pos # L"
      using r L(1) c by simp
    show "list_all isTransparentDraw (GlDrawArrays (ShapeDrawable shape) r GL_TRIANGLES pos # L)"
      using tr(1) L(2) by simp
  qed
qed

subsection \<open>\<^verbatim>\<open>renderScene\<close>\<close>

text \<open>The state of \<^verbatim>\<open>renderScene\<close> when the traversal and the deferred outlines are done.\<close>

lemma renderScene_unfold:
  "renderScene sceneRoot True s =
     (let s5 = (foldl (\<lambda>t (outline, T). renderOutlineGroupMain outline T t)
                  (render sceneRoot
                     ((renderCamera s)\<lparr>postRenderingFunctions := [],
                                       transparentRenderingFunctions := []\<rparr>))
                  (postRenderingFunctions
                     (render sceneRoot
                        ((renderCamera s)\<lparr>postRenderingFunctions := [],
                                          transparentRenderingFunctions := []\<rparr>))))
                \<lparr>postRenderingFunctions := []\<rparr>
      in if transparentRenderingFunctions s5 \<noteq> [] then renderTransparentObjects s5 else s5)"
  by (simp add: renderScene_def renderSceneGraphNodes_def Let_def)

lemma renderScene_glCalls:
  "\<exists>pre post.
      glCalls (renderScene sceneRoot camera s) = glCalls s @ pre @ post
      \<and> list_all (\<lambda>e. \<not> isTransparentDraw e) pre
      \<and> list_all transparentPassCall post
      \<and> shapeDrawsOf post
          = map (\<lambda>(shape, position, pickId). (shape, position)) (deferralsOf pre)
      \<and> (\<not> isNormalVisualizationEnabled s \<longrightarrow> list_all isTransparentDraw post)"
proof (cases camera)
  case False
  then have "renderScene sceneRoot camera s = s" by (simp add: renderScene_def)
  then show ?thesis by (intro exI [of _ "[]"]) simp
next
  case True
  define s2 where
    "s2 = (renderCamera s)\<lparr>postRenderingFunctions := [], transparentRenderingFunctions := []\<rparr>"
  define s3 where "s3 = render sceneRoot s2"
  define s4 where
    "s4 = foldl (\<lambda>t (outline, T). renderOutlineGroupMain outline T t) s3
            (postRenderingFunctions s3)"
  define s5 where "s5 = s4\<lparr>postRenderingFunctions := []\<rparr>"
  have eq: "renderScene sceneRoot camera s =
      (if transparentRenderingFunctions s5 \<noteq> [] then renderTransparentObjects s5 else s5)"
    using True by (simp add: renderScene_unfold Let_def s5_def s4_def s3_def s2_def)
  have "traverses s2 s3" unfolding s3_def by (rule render_traverses)
  moreover have "traverses s3 s4" unfolding s4_def by (rule postRendering_traverses)
  ultimately have "traverses s2 s4" by (rule traverses_trans)
  then obtain pre where pre:
    "glCalls s4 = glCalls s2 @ pre"
    "transparentRenderingFunctions s4 = transparentRenderingFunctions s2 @ deferralsOf pre"
    "list_all (\<lambda>e. \<not> isTransparentDraw e) pre"
    "list_all (\<lambda>(shape, position, pickId). isTransparent shape \<and> mesh shape \<noteq> None)
       (deferralsOf pre)"
    unfolding traverses_def by blast
  have g5: "glCalls s5 = glCalls s @ pre"
    and t5: "transparentRenderingFunctions s5 = deferralsOf pre"
    using pre(1,2) by (simp_all add: s5_def s2_def)
  show ?thesis
  proof (cases "transparentRenderingFunctions s5 = []")
    case True
    with eq g5 t5 pre(3) show ?thesis
      by (intro exI [of _ pre] exI [of _ "[]"]) simp
  next
    case False
    from transparentClosures_glCalls [OF pre(4), of s5] obtain post where post:
      "glCalls (foldl (\<lambda>t (shape, position, pickId). renderShapeMain shape position pickId t)
          s5 (deferralsOf pre)) = glCalls s5 @ post"
      "list_all transparentPassCall post"
      "shapeDrawsOf post = map (\<lambda>(shape, position, pickId). (shape, position)) (deferralsOf pre)"
      by blast
    have calls: "glCalls (renderScene sceneRoot camera s) = glCalls s @ pre @ post"
      using eq False post(1) g5 t5 by (simp add: renderTransparentObjects_def)
    have "traversalFrame s5 = traversalFrame s2"
      by (simp add: s5_def s4_def s3_def)
    then have flag: "isNormalVisualizationEnabled s5 = isNormalVisualizationEnabled s"
      by (simp add: traversalFrame_def s2_def)
    have plain: "list_all isTransparentDraw post" if "\<not> isNormalVisualizationEnabled s"
    proof -
      from that flag have "\<not> isNormalVisualizationEnabled s5" by simp
      from transparentClosures_plain [OF this pre(4)] obtain L where
        "glCalls (foldl (\<lambda>t (shape, position, pickId). renderShapeMain shape position pickId t)
            s5 (deferralsOf pre)) = glCalls s5 @ L"
        "list_all isTransparentDraw L"
        by blast
      with post(1) show ?thesis by simp
    qed
    from calls pre(3) post(2,3) plain show ?thesis by blast
  qed
qed

lemma renderTransparentObjects_relations [simp]:
  "traversalFrame (renderTransparentObjects s) = traversalFrame s"
  "pickPathsOk (renderTransparentObjects s) = pickPathsOk s"
  by (simp_all add: renderTransparentObjects_def)

lemma renderScene_pickPathsOk [simp]:
  "pickPathsOk (renderScene sceneRoot camera s) = pickPathsOk s"
  by (simp add: renderScene_def renderSceneGraphNodes_def Let_def)


subsection \<open>Frames\<close>

lemma renderShadowMaps_traverses:
  "traverses s (renderShadowMaps sceneRoot maxNumShadows lights shadowMapIndex s)"
proof (induction lights arbitrary: shadowMapIndex s)
  case Nil
  show ?case by simp
next
  case (Cons light lights)
  have step: "traverses s (renderSceneGraphNodes sceneRoot (renderCamera s))"
    using render_traverses(1) [of "renderCamera s" sceneRoot]
    by (simp add: renderSceneGraphNodes_def)
  have "traverses s
      (renderShadowMaps sceneRoot maxNumShadows lights (shadowMapIndex + 1)
         (renderSceneGraphNodes sceneRoot (renderCamera s)))"
    using step Cons.IH by (rule traverses_trans)
  with Cons.IH show ?case by simp
qed

text \<open>What \<^verbatim>\<open>doRender\<close> has issued when the shadow maps are done: no deferral.\<close>

lemma shadowPasses_glCalls:
  assumes "isRenderingShadowMap t"
  shows "\<exists>L. glCalls (renderShadowMaps sceneRoot maxNumShadows lights 0 t) = glCalls t @ L
           \<and> list_all (\<lambda>e. \<not> isTransparentDraw e) L \<and> deferralsOf L = []"
  using renderShadowMaps_traverses [of t sceneRoot maxNumShadows lights 0] assms
  unfolding traverses_def by auto

lemma renderShadowMaps_normalVisualization:
  "isNormalVisualizationEnabled (renderShadowMaps sceneRoot maxNumShadows lights shadowMapIndex s)
     = isNormalVisualizationEnabled s"
proof (induction lights arbitrary: shadowMapIndex s)
  case Nil
  show ?case by simp
next
  case (Cons light lights)
  have "traversalFrame (renderSceneGraphNodes sceneRoot (renderCamera s))
      = traversalFrame (renderCamera s)"
    by (simp add: renderSceneGraphNodes_def)
  then have "isNormalVisualizationEnabled (renderSceneGraphNodes sceneRoot (renderCamera s))
      = isNormalVisualizationEnabled s"
    by (simp add: traversalFrame_def)
  with Cons.IH show ?case by simp
qed

lemma doRender_glCalls:
  "\<exists>pre post.
      glCalls (doRender sceneRoot camera lightingMode maxNumShadows shadowLights s)
        = glCalls s @ pre @ post
      \<and> list_all (\<lambda>e. \<not> isTransparentDraw e) pre
      \<and> list_all transparentPassCall post
      \<and> shapeDrawsOf post
          = map (\<lambda>(shape, position, pickId). (shape, position)) (deferralsOf pre)
      \<and> (\<not> isNormalVisualizationEnabled s \<longrightarrow> list_all isTransparentDraw post)"
proof -
  define s1 where "s1 = beginRendering s"
  define s2 where
    "s2 = (case lightingMode of
             NO_LIGHTING \<Rightarrow> pushProgram NolightingProgram s1
           | SOLID_COLOR_LIGHTING \<Rightarrow> pushProgram SolidColorProgram s1
           | MINIMUM_LIGHTING \<Rightarrow> pushProgram MinimumLightingProgram s1
           | FULL_LIGHTING \<Rightarrow>
               pushProgram PhongShadowLightingProgram
                 (if shadowLights = [] then s1
                  else (popProgram
                          (renderShadowMaps sceneRoot maxNumShadows shadowLights 0
                             ((pushProgram ShadowMapProgram s1)
                                \<lparr>isRenderingShadowMap := True,
                                  isActuallyRendering := False\<rparr>)))
                       \<lparr>isRenderingShadowMap := False\<rparr>))"
  define s3 where "s3 = s2\<lparr>isActuallyRendering := True\<rparr>"
  have eq: "doRender sceneRoot camera lightingMode maxNumShadows shadowLights s
      = endRendering (popProgram (renderScene sceneRoot camera s3))"
    by (cases lightingMode) (simp_all add: doRender_def Let_def s3_def s2_def s1_def)
  have "\<exists>L. glCalls s2 = glCalls s @ L
          \<and> list_all (\<lambda>e. \<not> isTransparentDraw e) L \<and> deferralsOf L = []"
  proof (cases "lightingMode = FULL_LIGHTING \<and> shadowLights \<noteq> []")
    case False
    then have "glCalls s2 = glCalls s"
      by (cases lightingMode) (auto simp add: s2_def s1_def)
    then show ?thesis by simp
  next
    case True
    define t2 where
      "t2 = (pushProgram ShadowMapProgram s1)
              \<lparr>isRenderingShadowMap := True, isActuallyRendering := False\<rparr>"
    have "isRenderingShadowMap t2" by (simp add: t2_def)
    from shadowPasses_glCalls [OF this, of sceneRoot maxNumShadows shadowLights]
    obtain L where L:
      "glCalls (renderShadowMaps sceneRoot maxNumShadows shadowLights 0 t2) = glCalls t2 @ L"
      "list_all (\<lambda>e. \<not> isTransparentDraw e) L" "deferralsOf L = []"
      by blast
    have "glCalls s2 = glCalls s @ L"
      using True L(1) by (simp add: s2_def t2_def s1_def)
    with L(2,3) show ?thesis by blast
  qed
  then obtain L where L: "glCalls s2 = glCalls s @ L"
    "list_all (\<lambda>e. \<not> isTransparentDraw e) L" "deferralsOf L = []"
    by blast
  have flag: "isNormalVisualizationEnabled s3 = isNormalVisualizationEnabled s"
    by (cases lightingMode)
      (simp_all add: s3_def s2_def s1_def renderShadowMaps_normalVisualization)
  from renderScene_glCalls [of sceneRoot camera s3] obtain pre post where pp:
    "glCalls (renderScene sceneRoot camera s3) = glCalls s3 @ pre @ post"
    "list_all (\<lambda>e. \<not> isTransparentDraw e) pre"
    "list_all transparentPassCall post"
    "shapeDrawsOf post = map (\<lambda>(shape, position, pickId). (shape, position)) (deferralsOf pre)"
    "\<not> isNormalVisualizationEnabled s3 \<longrightarrow> list_all isTransparentDraw post"
    by blast
  show ?thesis
  proof (rule exI [of _ "L @ pre"], rule exI [of _ post], intro conjI)
    show "\<not> isNormalVisualizationEnabled s \<longrightarrow> list_all isTransparentDraw post"
      using pp(5) flag by simp
    show "glCalls (doRender sceneRoot camera lightingMode maxNumShadows shadowLights s)
            = glCalls s @ (L @ pre) @ post"
      using eq pp(1) L(1) by (simp add: s3_def)
    show "list_all (\<lambda>e. \<not> isTransparentDraw e) (L @ pre)" using L(2) pp(2) by simp
    show "list_all transparentPassCall post" by (rule pp(3))
    show "shapeDrawsOf post
            = map (\<lambda>(shape, position, pickId). (shape, position)) (deferralsOf (L @ pre))"
      using pp(4) L(3) by simp
  qed
qed

text \<open>The state in which the picking pass of \<^verbatim>\<open>doPick\<close> starts.\<close>

lemma doPick_unfold:
  "doPick sceneRoot camera x y color depth unproject s =
     (let s4 = (pushProgram SolidColorProgram
                  (beginRendering (s\<lparr>isPicking := True, isActuallyRendering := False\<rparr>)))
               \<lparr>currentNodePath := [], pickingNodePathList := []\<rparr>;
          s9 = (endRendering ((popProgram (renderScene sceneRoot camera s4))
                  \<lparr>isPicking := False\<rparr>))\<lparr>pickedNodePath := []\<rparr>;
          pid = decodePickColor color;
          s10 = (if 0 < pid \<and> unat pid < length (pickingNodePathList s9)
                 then
                   let (ok, point) = unproject x y depth (pickedPoint s9);
                       s' = s9\<lparr>pickedPoint := point\<rparr>
                   in if ok
                      then s'\<lparr>pickedNodePath := pickingNodePathList s' ! unat pid\<rparr>
                      else s'
                 else s9)
      in (pickedNodePath s10 \<noteq> [], s10))"
  by (simp add: doPick_def Let_def)

lemma doPick_glCalls:
  "\<exists>pre post.
      glCalls (snd (doPick sceneRoot camera x y color depth unproject s))
        = glCalls s @ pre @ post
      \<and> list_all (\<lambda>e. \<not> isTransparentDraw e) pre
      \<and> list_all transparentPassCall post
      \<and> shapeDrawsOf post
          = map (\<lambda>(shape, position, pickId). (shape, position)) (deferralsOf pre)
      \<and> (\<not> isNormalVisualizationEnabled s \<longrightarrow> list_all isTransparentDraw post)"
proof -
  define s4 where
    "s4 = (pushProgram SolidColorProgram
             (beginRendering (s\<lparr>isPicking := True, isActuallyRendering := False\<rparr>)))
          \<lparr>currentNodePath := [], pickingNodePathList := []\<rparr>"
  have "glCalls (snd (doPick sceneRoot camera x y color depth unproject s))
      = glCalls (renderScene sceneRoot camera s4)"
    by (simp add: doPick_unfold Let_def s4_def case_prod_beta)
  moreover have "glCalls s4 = glCalls s"
    and "isNormalVisualizationEnabled s4 = isNormalVisualizationEnabled s"
    by (simp_all add: s4_def)
  ultimately show ?thesis
    using renderScene_glCalls [of sceneRoot camera s4] by simp
qed

lemma renderShape_defers:
  assumes "isTransparent shape" and "mesh shape = Some m" and "hasVertices m"
  shows "glCalls (renderShape shape s) =
           (if isRenderingShadowMap s then glCalls s
            else glCalls s @ [Deferred shape (last (modelMatrixStack s))
                   (fst (pushPickId (SceneObject (shapeNode shape)) False s))])"
  using assms by (simp add: renderShape_def Let_def case_prod_beta)


section \<open>The traversal state\<close>

text \<open>
  Claim C10. Every rendering function of the dispatch table returns with the model
  matrix stack and the current pick path as it found them: the stack has the same
  elements, so the same depth and the same top, and the path is the same. The same
  holds of \<^verbatim>\<open>renderChildNodes\<close>, of \<^verbatim>\<open>renderGroup\<close> and of the deferred body of an outline
  group, and the stack of the shader programs is restored as well. The stack is not
  empty when a traversal starts (\<^verbatim>\<open>renderCamera\<close> leaves the identity on it);
  \<^verbatim>\<open>modelMatrixStack.back()\<close> of an empty stack is undefined.
\<close>

theorem render_restores_traversal_state:
  assumes "modelMatrixStack s \<noteq> []"
  shows "modelMatrixStack (render node s) = modelMatrixStack s
    \<and> length (modelMatrixStack (render node s)) = length (modelMatrixStack s)
    \<and> last (modelMatrixStack (render node s)) = last (modelMatrixStack s)
    \<and> currentNodePath (render node s) = currentNodePath s
    \<and> programStack (render node s) = programStack s
    \<and> modelMatrixStack (renderChildNodes children s) = modelMatrixStack s
    \<and> currentNodePath (renderChildNodes children s) = currentNodePath s
    \<and> modelMatrixStack (renderGroup g children s) = modelMatrixStack s
    \<and> currentNodePath (renderGroup g children s) = currentNodePath s
    \<and> modelMatrixStack (renderOutlineGroupMain outline T s) = modelMatrixStack s
    \<and> currentNodePath (renderOutlineGroupMain outline T s) = currentNodePath s"
proof -
  have "traversalFrame (render node s) = traversalFrame s"
    and "traversalFrame (renderChildNodes children s) = traversalFrame s"
    and "traversalFrame (renderGroup g children s) = traversalFrame s"
    and "traversalFrame (renderOutlineGroupMain outline T s) = traversalFrame s"
    by simp_all
  then show ?thesis by (simp add: traversalFrame_def)
qed

theorem render_restores_traversal_state_witness:
  "modelMatrixStack
     (render (Transform 9 5 [exampleScene, Overlay 4 [LineSet 5 2 1], PointSet 6 1])
        (exampleStart\<lparr>modelMatrixStack := [1, 7], isPicking := True,
                      currentNodePath := [SceneObject 0]\<rparr>)) = [1, 7]
   \<and> currentNodePath
     (render (Transform 9 5 [exampleScene, Overlay 4 [LineSet 5 2 1], PointSet 6 1])
        (exampleStart\<lparr>modelMatrixStack := [1, 7], isPicking := True,
                      currentNodePath := [SceneObject 0]\<rparr>)) = [SceneObject 0]"
  using render_restores_traversal_state [of
      "exampleStart\<lparr>modelMatrixStack := [1, 7], isPicking := True,
                      currentNodePath := [SceneObject 0]\<rparr>"
      "Transform 9 5 [exampleScene, Overlay 4 [LineSet 5 2 1], PointSet 6 1]"]
  by simp

section \<open>Transparent shapes\<close>

text \<open>
  Claim C3 as the spec states it: the deferred shapes are drawn only after every opaque
  object of the frame. With the visualisation of normals enabled this fails:
  \<^verbatim>\<open>renderShapeMain\<close> draws, after each shape, the line set of the normals of its mesh,
  which has an opaque material, also when it runs as a deferred closure. In the example
  scene the frame ends with the lines of the glass, drawn after the glass.
\<close>

theorem normal_lines_drawn_after_transparent_shape:
  "glCalls (doRender exampleScene True FULL_LIGHTING 2 []
             (exampleStart\<lparr>isNormalVisualizationEnabled := True\<rparr>)) =
     [Deferred exampleGlass 1 0,
      GlDrawArrays (ShapeDrawable exampleBox) 0 GL_TRIANGLES 1,
      GlDrawArrays (PlotDrawable (normalVisualizationLineSet (0, 3))) 1 GL_LINES 1,
      GlDrawArrays (ShapeDrawable exampleGlass) 2 GL_TRIANGLES 1,
      GlDrawArrays (PlotDrawable (normalVisualizationLineSet (1, 3))) 3 GL_LINES 1]
   \<and> isTransparentDraw (GlDrawArrays (ShapeDrawable exampleGlass) 2 GL_TRIANGLES (1 :: int))
   \<and> \<not> isTransparentDraw
         (GlDrawArrays (PlotDrawable (normalVisualizationLineSet (1, 3))) 3 GL_LINES (1 :: int))"
proof -
  have "glCalls (doRender exampleScene True FULL_LIGHTING 2 []
             (exampleStart\<lparr>isNormalVisualizationEnabled := True\<rparr>)) =
     [Deferred exampleGlass 1 0,
      GlDrawArrays (ShapeDrawable exampleBox) 0 GL_TRIANGLES 1,
      GlDrawArrays (PlotDrawable (normalVisualizationLineSet (0, 3))) 1 GL_LINES 1,
      GlDrawArrays (ShapeDrawable exampleGlass) 2 GL_TRIANGLES 1,
      GlDrawArrays (PlotDrawable (normalVisualizationLineSet (1, 3))) 3 GL_LINES 1]"
    by code_simp
  then show ?thesis
    by (simp add: isTransparent_def exampleGlass_def)
qed

text \<open>
  Claim C3, amended. The calls that a frame issues, be it \<^verbatim>\<open>doRender\<close> with its shadow
  passes or the picking pass of \<^verbatim>\<open>doPick\<close>, are a sequence \<open>pre\<close> followed by a sequence
  \<open>post\<close>: \<open>pre\<close>, the shadow passes, the traversal and the deferred outlines, draws no
  transparent shape; \<open>post\<close>, the transparent pass, draws only transparent shapes and
  the line sets of normals that \<^verbatim>\<open>renderShapeMain\<close> draws with a shape, and only
  transparent shapes unless the visualisation of normals is enabled: no object of the
  scene graph that is opaque is drawn after a transparent shape. The shapes drawn in
  \<open>post\<close> are the shapes deferred in \<open>pre\<close>, each with the model matrix of its deferral,
  once for each deferral and in the order of the deferrals, which is the order in which
  the traversal has visited them. When the traversal visits a transparent shape whose
  mesh has vertices, \<^verbatim>\<open>renderShape\<close> issues no draw call: it defers the shape, or, in a
  shadow pass, leaves it out.
\<close>

theorem transparent_shapes_drawn_last:
  "(\<exists>pre post.
      glCalls (doRender sceneRoot camera lightingMode maxNumShadows shadowLights s)
        = glCalls s @ pre @ post
      \<and> list_all (\<lambda>e. \<not> isTransparentDraw e) pre
      \<and> list_all transparentPassCall post
      \<and> (\<not> isNormalVisualizationEnabled s \<longrightarrow> list_all isTransparentDraw post)
      \<and> shapeDrawsOf post
          = map (\<lambda>(shape, position, pickId). (shape, position)) (deferralsOf pre))
   \<and> (\<exists>pre post.
      glCalls (snd (doPick sceneRoot camera x y color depth unproject s))
        = glCalls s @ pre @ post
      \<and> list_all (\<lambda>e. \<not> isTransparentDraw e) pre
      \<and> list_all transparentPassCall post
      \<and> (\<not> isNormalVisualizationEnabled s \<longrightarrow> list_all isTransparentDraw post)
      \<and> shapeDrawsOf post
          = map (\<lambda>(shape, position, pickId). (shape, position)) (deferralsOf pre))
   \<and> (isTransparent shape \<and> mesh shape = Some m \<and> hasVertices m \<longrightarrow>
        glCalls (renderShape shape s) =
          (if isRenderingShadowMap s then glCalls s
           else glCalls s @ [Deferred shape (last (modelMatrixStack s))
                  (fst (pushPickId (SceneObject (shapeNode shape)) False s))]))"
  using doRender_glCalls [of sceneRoot camera lightingMode maxNumShadows shadowLights s]
    doPick_glCalls [of sceneRoot camera x y color depth unproject s]
    renderShape_defers [of shape m s]
  by blast

theorem transparent_shapes_drawn_last_witness:
  "glCalls (doRender exampleScene True FULL_LIGHTING 2 [True] exampleStart) =
     [GlDrawArrays (ShapeDrawable exampleBox) 0 GL_TRIANGLES 1,
      Deferred exampleGlass 1 0,
      GlDrawArrays (ShapeDrawable exampleBox) 0 GL_TRIANGLES 1,
      GlDrawArrays (ShapeDrawable exampleGlass) 1 GL_TRIANGLES 1]
   \<and> glCalls (renderShape exampleGlass (renderCamera exampleStart))
       = [Deferred exampleGlass 1 0]"
proof -
  have calls: "glCalls (doRender exampleScene True FULL_LIGHTING 2 [True] exampleStart) =
     [GlDrawArrays (ShapeDrawable exampleBox) 0 GL_TRIANGLES 1,
      Deferred exampleGlass 1 0,
      GlDrawArrays (ShapeDrawable exampleBox) 0 GL_TRIANGLES 1,
      GlDrawArrays (ShapeDrawable exampleGlass) 1 GL_TRIANGLES 1]"
    by code_simp
  have glass: "isTransparent exampleGlass \<and> mesh exampleGlass = Some (exampleTriangle 20)
      \<and> hasVertices (exampleTriangle 20)"
    by (simp add: isTransparent_def exampleGlass_def exampleTriangle_def hasVertices_def)
  have start: "\<not> isRenderingShadowMap (renderCamera exampleStart)"
    "glCalls (renderCamera exampleStart) = []"
    "last (modelMatrixStack (renderCamera exampleStart)) = 1"
    "fst (pushPickId (SceneObject (shapeNode exampleGlass)) False (renderCamera exampleStart)) = 0"
    by (simp_all add: exampleStart_def initialize_def renderCamera_def pushPickId_def)
  from transparent_shapes_drawn_last [of exampleScene True FULL_LIGHTING 2 "[True]"
      "renderCamera exampleStart" 0 0 "(0, 0, 0)" 0 "\<lambda>x y depth p. (False, p)"
      exampleGlass "exampleTriangle 20"]
    glass start
  have "glCalls (renderShape exampleGlass (renderCamera exampleStart))
      = [Deferred exampleGlass 1 0]"
    by simp
  with calls show ?thesis by simp
qed

section \<open>Rounding to binary32\<close>

lemma bitlen_between:
  assumes "2 ^ k \<le> n" and "n < 2 * 2 ^ k"
  shows "bitlen n = int k + 1"
  using bitlen_twopow_add_eq [of "n - 2 ^ k" k] assms by simp

text \<open>
  A number with a scaling \<open>2 ^ q\<close> that brings it between \<open>2 ^ 23\<close> and \<open>2 ^ 24\<close> is
  rounded to a multiple of \<open>2 ^ - q\<close>.
\<close>

lemma binary32_scaled:
  fixes x :: real and q :: nat
  assumes q: "q \<le> 149" and lo: "2 ^ 23 \<le> x * 2 ^ q" and hi: "x * 2 ^ q < 2 ^ 24"
  shows "binary32 x = real_of_int (roundToEven (x * 2 ^ q)) / 2 ^ q"
proof -
  define r where "r = 149 - q"
  define c where "c = (2 :: real) ^ 149"
  define n where "n = \<bar>x\<bar> * c"
  have "0 < x * 2 ^ q" using lo by (rule less_le_trans [rotated]) simp
  then have x: "0 < x" by (simp add: zero_less_mult_iff)
  have c: "c = 2 ^ q * 2 ^ r"
    using q by (simp only: c_def r_def flip: power_add) simp
  have n: "n = x * 2 ^ q * 2 ^ r"
    using x by (simp only: n_def c abs_of_pos mult.assoc)
  have "real_of_int (2 ^ (23 + r)) \<le> n"
    using lo by (simp add: n power_add)
  then have 1: "2 ^ (23 + r) \<le> \<lfloor>n\<rfloor>"
    by (simp only: le_floor_iff)
  have "n < real_of_int (2 * 2 ^ (23 + r))"
    using hi by (simp add: n power_add)
  then have 2: "\<lfloor>n\<rfloor> < 2 * 2 ^ (23 + r)"
    by (simp only: floor_less_iff)
  from 1 2 have "bitlen \<lfloor>n\<rfloor> = int (23 + r) + 1"
    by (rule bitlen_between)
  then have u: "nat (bitlen \<lfloor>n\<rfloor> - 24) = r" by simp
  have "binary32 x
      = sgn x * real_of_int (roundToEven
          (n / real_of_int (2 ^ nat (bitlen \<lfloor>n\<rfloor> - 24)))
            * 2 ^ nat (bitlen \<lfloor>n\<rfloor> - 24)) / c"
    by (simp only: binary32_def Let_def n_def c_def)
  also have "\<dots> = sgn x * real_of_int (roundToEven (n / real_of_int (2 ^ r)) * 2 ^ r) / c"
    by (simp only: u)
  also have "n / real_of_int (2 ^ r) = x * 2 ^ q" by (simp add: n)
  finally show ?thesis using x by (simp add: c)
qed

lemma roundToEven_of_int: "roundToEven (real_of_int i) = i"
  by (simp add: roundToEven_def)

lemma binary32_zero: "binary32 0 = 0"
  by (simp add: binary32_def)

lemma binary32_minus: "binary32 (- x) = - binary32 x"
  by (simp add: binary32_def Let_def sgn_minus)

text \<open>An integer below \<open>2 ^ 24\<close> is a binary32 number.\<close>

lemma binary32_of_int:
  assumes "\<bar>n\<bar> < 2 ^ 24"
  shows "binary32 (real_of_int n) = real_of_int n"
proof -
  have pos: "binary32 (real_of_int m) = real_of_int m" if m: "0 < m" "m < 2 ^ 24" for m :: int
  proof -
    define k where "k = nat (bitlen m)"
    from m(1) have b: "2 ^ nat (bitlen m - 1) \<le> m" "m < 2 ^ nat (bitlen m)"
      using bitlen_bounds [of m] by simp_all
    from m have "bitlen m \<le> 24"
      by (simp add: bitlen_le_iff_power)
    moreover from m(1) have "0 < bitlen m"
      using bitlen_eq_zero_iff [of m] bitlen_nonneg [of m] by linarith
    ultimately have k: "0 < k" "k \<le> 24" "nat (bitlen m - 1) = k - 1"
      by (simp_all add: k_def nat_diff_distrib)
    define q where "q = 24 - k"
    have e: "(2 :: int) ^ 23 = 2 ^ (k - 1) * 2 ^ q" "(2 :: int) ^ 24 = 2 ^ k * 2 ^ q"
      using k by (simp_all only: q_def flip: power_add) simp_all
    from b have "2 ^ (k - 1) * 2 ^ q \<le> m * 2 ^ q" "m * 2 ^ q < 2 ^ k * 2 ^ q"
      by (simp_all add: k k_def)
    then have "2 ^ 23 \<le> m * 2 ^ q" "m * 2 ^ q < 2 ^ 24"
      by (simp_all only: e)
    then have "real_of_int (2 ^ 23) \<le> real_of_int (m * 2 ^ q)"
      "real_of_int (m * 2 ^ q) < real_of_int (2 ^ 24)"
      by (simp_all only: of_int_le_iff of_int_less_iff)
    then have "(2 :: real) ^ 23 \<le> real_of_int m * 2 ^ q" "real_of_int m * 2 ^ q < 2 ^ 24"
      by simp_all
    moreover have "q \<le> 149" by (simp add: q_def)
    ultimately have "binary32 (real_of_int m)
        = real_of_int (roundToEven (real_of_int m * 2 ^ q)) / 2 ^ q"
      by (rule binary32_scaled [rotated])
    also have "real_of_int m * 2 ^ q = real_of_int (m * 2 ^ q)" by simp
    finally show ?thesis by (simp only: roundToEven_of_int) simp
  qed
  consider "n = 0" | "0 < n" | "0 < - n" by linarith
  then show ?thesis
  proof cases
    case 1
    then show ?thesis by (simp add: binary32_zero)
  next
    case 2
    with assms show ?thesis by (simp add: pos)
  next
    case 3
    with assms have "binary32 (real_of_int (- n)) = real_of_int (- n)"
      by (intro pos) simp_all
    then show ?thesis by (simp add: binary32_minus)
  qed
qed













subsection \<open>The colour of a pick identifier and its decoding\<close>




lemma truncToInt_of_int [simp]: "truncToInt (real_of_int i) = i"
  by (simp add: truncToInt_def)

lemma truncToInt_of_nat [simp]: "truncToInt (real n) = int n"
  using truncToInt_of_int [of "int n"] by simp


text \<open>
  The roundings matter for a pixel that is not of this kind: at the pixel
  \<open>(65793 / 2 ^ 24, 8421505 / 2 ^ 31, 0)\<close> the sum \<open>0.99999994 + 256\<close> is rounded to 257, and
  the pixel decodes to 256, where the arithmetic of the reals would give 255.
\<close>

lemma decodePickColor_rounds: "decodePickColor (65793 / 2 ^ 24, 8421505 / 2 ^ 31, 0) = 256"
proof -
  have 1: "binary32 (16777215 / 16777216) = 16777215 / 16777216"
    by (simp add: binary32_scaled [where q = 24] roundToEven_def)
  have 2: "binary32 (2147483775 / 2147483648) = 1"
    by (simp add: binary32_scaled [where q = 23] roundToEven_def)
  have 3: "binary32 256 = 256" "binary32 257 = 257"
    using binary32_of_int [of 256] binary32_of_int [of 257] by simp_all
  have 4: "binary32 (4311744511 / 16777216) = 257"
    by (simp add: binary32_scaled [where q = 15] roundToEven_def)
  show ?thesis
    by (simp add: decodePickColor_def toUInt32_def truncToInt_def binary32_zero 1 2 3 4)
qed






section \<open>The result of a pick\<close>




section \<open>Packed normals\<close>

text \<open>
  The numbers of the example are binary32 numbers: rounding leaves them as they are.
  The sum \<open>- 511 / 2 ^ 30 + 512\<close> is not: between 256 and 512 the binary32 numbers are
  \<open>2 ^ - 15\<close> apart, and the sum is rounded to 512.
\<close>

lemma binary32_1: "binary32 1 = 1"
  by (simp add: binary32_def Let_def roundToEven_def bitlen_between [of 149])

lemma binary32_minus_1: "binary32 (- 1) = - 1"
  by (simp add: binary32_def Let_def roundToEven_def bitlen_between [of 149])

lemma binary32_511: "binary32 511 = 511"
  by (simp add: binary32_def Let_def roundToEven_def bitlen_between [of 157])

lemma binary32_small: "binary32 (- (1 / 2 ^ 30)) = - (1 / 2 ^ 30)"
  by (simp add: binary32_def Let_def roundToEven_def bitlen_between [of 119])

lemma binary32_small_product: "binary32 (- (511 / 2 ^ 30)) = - (511 / 2 ^ 30)"
  by (simp add: binary32_def Let_def roundToEven_def bitlen_between [of 127])

lemma binary32_small_sum: "binary32 (- (511 / 2 ^ 30) + 512) = 512"
  by (simp add: binary32_def Let_def roundToEven_def bitlen_between [of 157])

lemma packComponent_small: "packComponent binary32 (- (1 / 2 ^ 30)) = 512"
  using binary32_small_product binary32_small_sum
  by (simp add: packComponent_def toUInt32_def truncToInt_def)

lemma packComponent_0: "packComponent binary32 0 = 0"
  by (simp add: packComponent_def toUInt32_def truncToInt_def binary32_zero)

lemma packComponent_1: "packComponent binary32 1 = 511"
  by (simp add: packComponent_def toUInt32_def truncToInt_def binary32_511)

lemma append_small: "NormalArrayWrapper_append binary32 (- (1 / 2 ^ 30), 0, 1) = 0x1FF00200"
  using packComponent_small by (simp add: NormalArrayWrapper_append_def packComponent_0 packComponent_1)

lemma get_small: "NormalArrayWrapper_get binary32 0x1FF00200 = (- 1, 0, 1)"
  by (simp add: NormalArrayWrapper_get_def unpackComponent_def binary32_zero binary32_1
      binary32_minus_1)

text \<open>
  Claim C6 at the normal \<open>(- 2 ^ - 30, 0, 1)\<close>, whose components are binary32 numbers and
  whose length is 1 in binary32 arithmetic. \<^verbatim>\<open>append\<close> computes
  \<^verbatim>\<open>v.x() * 511 + (xs << 9)\<close> in \<^verbatim>\<open>float\<close>: the sum is rounded to 512, the conversion to
  \<^verbatim>\<open>uint32_t\<close> gives 512, and \<^verbatim>\<open>& 511\<close> leaves 0 beside the sign bit. \<^verbatim>\<open>get\<close> decodes the
  field to \<open>(0 - 512) / 512 = - 1\<close>: the first component comes back as \<open>- 1\<close>, which is
  further than \<open>1 / 511\<close> from \<open>- 2 ^ - 30\<close>.
\<close>

theorem NormalArrayWrapper_round_trip_small_negative:
  "binary32 (- (1 / 2 ^ 30)) = - (1 / 2 ^ 30)
   \<and> NormalArrayWrapper_append binary32 (- (1 / 2 ^ 30), 0, 1) = 0x1FF00200
   \<and> NormalArrayWrapper_get binary32
         (NormalArrayWrapper_append binary32 (- (1 / 2 ^ 30), 0, 1)) = (- 1, 0, 1)
   \<and> 1 / 511 < \<bar>fst (NormalArrayWrapper_get binary32
         (NormalArrayWrapper_append binary32 (- (1 / 2 ^ 30), 0, 1))) - (- (1 / 2 ^ 30))\<bar>"
  using binary32_small append_small get_small by simp

section \<open>Flat shading\<close>

lemma nthOpt_in_range:
  assumes "i < length xs"
  shows "nthOpt xs (int i) = Some (xs ! i)"
  using assms by (simp add: nthOpt_def)

lemma nthOpt_vertex:
  assumes "\<forall>t\<in>set tv. 0 \<le> t \<and> t < int (length vs)" and "i < length tv"
  shows "nthOpt vs (tv ! i) = Some (vs ! nat (tv ! i))"
  using assms by (simp add: nthOpt_def)

text \<open>
  The loop appends, for each triangle, three copies of what \<open>enc\<close> stores for the
  normal of its face.
\<close>

lemma flatShadingLoop_appends:
  assumes "\<forall>t\<in>set tv. 0 \<le> t \<and> t < int (length vs)"
    and "\<forall>i\<in>set is. 3 * i + 2 < length tv"
  shows "flatShadingLoop ops enc vs tv is array
    = Some (array @ concat (map (\<lambda>i. replicate 3 (enc (normalized ops (cross ops
          (minus3 ops (vs ! nat (tv ! (3 * i + 1))) (vs ! nat (tv ! (3 * i))))
          (minus3 ops (vs ! nat (tv ! (3 * i + 2))) (vs ! nat (tv ! (3 * i)))))))) is))"
  using assms(2)
proof (induction "is" arbitrary: array)
  case Nil
  show ?case by simp
next
  case (Cons i rest)
  from Cons.prems have i: "3 * i < length tv" "3 * i + 1 < length tv" "3 * i + 2 < length tv"
    by simp_all
  from Cons.prems have rest: "\<forall>i\<in>set rest. 3 * i + 2 < length tv"
    by simp
  have t: "nthOpt tv (int (3 * i)) = Some (tv ! (3 * i))"
    "nthOpt tv (int (3 * i + 1)) = Some (tv ! (3 * i + 1))"
    "nthOpt tv (int (3 * i + 2)) = Some (tv ! (3 * i + 2))"
    using i by (simp_all only: nthOpt_in_range)
  have p: "nthOpt vs (tv ! (3 * i)) = Some (vs ! nat (tv ! (3 * i)))"
    "nthOpt vs (tv ! (3 * i + 1)) = Some (vs ! nat (tv ! (3 * i + 1)))"
    "nthOpt vs (tv ! (3 * i + 2)) = Some (vs ! nat (tv ! (3 * i + 2)))"
    using assms(1) i by (simp_all only: nthOpt_vertex)
  show ?case
    by (simp only: flatShadingLoop.simps t p Cons.IH [OF rest] Let_def prod.case option.case)
      (simp add: numeral_3_eq_3)
qed

lemma concat_replicate_3_length: "length (concat (map (\<lambda>i. replicate 3 (f i)) [0..<n])) = 3 * n"
  by (induction n) simp_all

lemma concat_replicate_3_nth:
  assumes "i < n" and "j < 3"
  shows "concat (map (\<lambda>i. replicate 3 (f i)) [0..<n]) ! (3 * i + j) = f i"
  using assms(1)
proof (induction n)
  case 0
  then show ?case by simp
next
  case (Suc n)
  show ?case
  proof (cases "i < n")
    case True
    with assms(2) have "3 * i + j < 3 * n" by simp
    with Suc.IH [OF True] show ?thesis
      by (simp add: nth_append concat_replicate_3_length)
  next
    case False
    with Suc.prems have "i = n" by simp
    with assms(2) show ?thesis
      by (simp add: nth_append concat_replicate_3_length)
  qed
qed

text \<open>
  Claim C7. With smooth shading disabled, for a mesh with vertices whose triangle
  vertex indices are indices of vertices, \<^verbatim>\<open>writeMeshNormalsSub\<close> returns true and
  has appended three entries for each triangle: the entry for each of the three
  expanded vertices \<open>3 i + j\<close> of the triangle \<open>i\<close> is what \<^verbatim>\<open>append\<close> stores for
  \<open>normalize ((P1 - P0) \<times> (P2 - P0))\<close>, for the vertices \<open>P0\<close>, \<open>P1\<close>, \<open>P2\<close> of the triangle.
\<close>

theorem writeMeshNormalsSub_flat_shading:
  assumes "vertices m = Some vs"
    and "\<forall>t\<in>set (triangleVertices m). 0 \<le> t \<and> t < int (length vs)"
  shows "\<exists>array. writeMeshNormalsSub ops enc False m = Some (True, array)
    \<and> length array = 3 * numTriangles m
    \<and> (\<forall>i<numTriangles m. \<forall>j<3.
          let P0 = vs ! nat (triangleVertices m ! (3 * i));
              P1 = vs ! nat (triangleVertices m ! (3 * i + 1));
              P2 = vs ! nat (triangleVertices m ! (3 * i + 2))
          in array ! (3 * i + j)
               = enc (normalized ops (cross ops (minus3 ops P1 P0) (minus3 ops P2 P0))))"
proof -
  have "\<forall>i\<in>set [0..<numTriangles m]. 3 * i + 2 < length (triangleVertices m)"
    by (auto simp add: numTriangles_def)
  from flatShadingLoop_appends [OF assms(2) this, of ops enc "[]"] assms(1)
  show ?thesis
    by (simp add: writeMeshNormalsSub_def concat_replicate_3_length concat_replicate_3_nth)
qed

theorem writeMeshNormalsSub_flat_shading_witness:
  "vertices (exampleTriangle 20) = Some [(0, 0, 0), (1, 0, 0), (0, 1, 0)]
   \<and> triangleVertices (exampleTriangle 20) = [0, 1, 2]
   \<and> writeMeshNormalsSub eigenOps (\<lambda>v. v) False (exampleTriangle 20)
       = Some (True, [(0, 0, 1), (0, 0, 1), (0, 0, 1)])"
proof -
  have v: "vertices (exampleTriangle 20) = Some [(0, 0, 0), (1, 0, 0), (0, 1, 0)]"
    by (simp add: exampleTriangle_def)
  have tv: "triangleVertices (exampleTriangle 20) = [0, 1, 2]"
    by (simp add: exampleTriangle_def)
  have r: "\<forall>t\<in>set (triangleVertices (exampleTriangle 20)).
      0 \<le> t \<and> t < int (length [(0, 0, 0), (1, 0, 0), (0, 1, 0) :: Vector3f])"
    by (simp add: tv)
  have n: "numTriangles (exampleTriangle 20) = 1"
    by (simp add: numTriangles_def tv)
  from writeMeshNormalsSub_flat_shading [OF v r, of eigenOps "\<lambda>v. v"]
  obtain array where a: "writeMeshNormalsSub eigenOps (\<lambda>v. v) False (exampleTriangle 20)
      = Some (True, array)"
    and l: "length array = 3"
    and e: "\<forall>j<3. array ! j = (0, 0, 1)"
    by (auto simp add: n tv eigenOps_def)
  from e have "array ! 0 = (0, 0, 1)" "array ! Suc 0 = (0, 0, 1)" "array ! Suc (Suc 0) = (0, 0, 1)"
    by (simp_all add: numeral_3_eq_3)
  with l have "array = [(0, 0, 1), (0, 0, 1), (0, 0, 1)]"
    by (auto simp add: list_eq_iff_nth_eq less_Suc_eq numeral_3_eq_3)
  with a v tv show ?thesis
    by simp
qed

section \<open>The resource cache across frames\<close>

lemma index_distinct: "1 - i \<noteq> (i :: int)" "i \<noteq> 1 - (i :: int)"
  by presburger+

lemma getOrCreateVertexResource_found:
  assumes "currentResourceMap s obj = Some h"
  shows "fst (getOrCreateVertexResource obj s) = h"
    and "nextHandle (snd (getOrCreateVertexResource obj s)) = nextHandle s"
    and "currentResourceMap (snd (getOrCreateVertexResource obj s)) = currentResourceMap s"
    and "nextResourceMap (snd (getOrCreateVertexResource obj s))
      = (if isCheckingUnusedResources s then mapInsert (nextResourceMap s) obj h
         else nextResourceMap s)"
  using assms
  by (simp_all add: getOrCreateVertexResource_def currentResourceMap_def nextResourceMap_def
      index_distinct)

lemma getOrCreateVertexResource_new:
  assumes "currentResourceMap s obj = None"
  shows "fst (getOrCreateVertexResource obj s) = nextHandle s"
    and "nextHandle (snd (getOrCreateVertexResource obj s)) = nextHandle s + 1"
    and "currentResourceMap (snd (getOrCreateVertexResource obj s))
      = (currentResourceMap s)(obj \<mapsto> nextHandle s)"
    and "nextResourceMap (snd (getOrCreateVertexResource obj s))
      = (if isCheckingUnusedResources s then mapInsert (nextResourceMap s) obj (nextHandle s)
         else nextResourceMap s)"
  using assms
  by (simp_all add: getOrCreateVertexResource_def currentResourceMap_def nextResourceMap_def
      mapInsert_def index_distinct)


text \<open>One lookup.\<close>

lemma lookup_returns_entry:
  "currentResourceMap (snd (getOrCreateVertexResource obj s)) obj
     = Some (fst (getOrCreateVertexResource obj s))"
proof (cases "currentResourceMap s obj")
  case None
  then show ?thesis by (simp add: getOrCreateVertexResource_new)
next
  case (Some h)
  then show ?thesis by (simp add: getOrCreateVertexResource_found)
qed

lemma lookup_keeps_current:
  assumes "currentResourceMap s obj' = Some h"
  shows "currentResourceMap (snd (getOrCreateVertexResource obj s)) obj' = Some h"
proof (cases "currentResourceMap s obj")
  case None
  with assms have "obj' \<noteq> obj" by auto
  with None assms show ?thesis by (simp add: getOrCreateVertexResource_new)
next
  case (Some h')
  with assms show ?thesis by (simp add: getOrCreateVertexResource_found)
qed

lemma lookup_keeps_next:
  assumes "nextResourceMap s obj' = Some h"
  shows "nextResourceMap (snd (getOrCreateVertexResource obj s)) obj' = Some h"
proof (cases "currentResourceMap s obj")
  case None
  with assms show ?thesis
    by (auto simp add: getOrCreateVertexResource_new mapInsert_def split: option.splits)
next
  case (Some h')
  with assms show ?thesis
    by (auto simp add: getOrCreateVertexResource_found mapInsert_def split: option.splits)
qed

lemma lookup_frameInvariant:
  assumes "frameInvariant s"
  shows "frameInvariant (snd (getOrCreateVertexResource obj s))"
proof (cases "currentResourceMap s obj")
  case None
  with assms show ?thesis
    by (auto simp add: frameInvariant_def getOrCreateVertexResource_new mapInsert_def
        split: option.splits if_splits)
next
  case (Some h')
  with assms show ?thesis
    by (auto simp add: frameInvariant_def getOrCreateVertexResource_found mapInsert_def
        split: option.splits if_splits)
qed

lemma lookup_enters_next:
  assumes "frameInvariant s" and "isCheckingUnusedResources s"
  shows "nextResourceMap (snd (getOrCreateVertexResource obj s)) obj
     = Some (fst (getOrCreateVertexResource obj s))"
proof (cases "currentResourceMap s obj")
  case None
  with assms show ?thesis
    by (auto simp add: frameInvariant_def getOrCreateVertexResource_new mapInsert_def
        split: option.splits)
next
  case (Some h')
  with assms show ?thesis
    by (auto simp add: frameInvariant_def getOrCreateVertexResource_found mapInsert_def
        split: option.splits)
qed

text \<open>The lookups of a frame.\<close>

lemma lookups_fields [simp]:
  "isCheckingUnusedResources (snd (lookups objs s)) = isCheckingUnusedResources s"
  "hasValidNextResourceMap (snd (lookups objs s)) = hasValidNextResourceMap s"
  "isResourceClearRequested (snd (lookups objs s)) = isResourceClearRequested s"
  "doUnusedResourceCheck (snd (lookups objs s)) = doUnusedResourceCheck s"
  "currentResourceMapIndex (snd (lookups objs s)) = currentResourceMapIndex s"
  by (induction objs arbitrary: s; simp add: case_prod_beta Let_def)+

lemma lookups_keep_current:
  assumes "currentResourceMap s obj = Some h"
  shows "currentResourceMap (snd (lookups objs s)) obj = Some h"
  using assms
  by (induction objs arbitrary: s) (simp_all add: case_prod_beta Let_def lookup_keeps_current)

lemma lookups_keep_next:
  assumes "nextResourceMap s obj = Some h"
  shows "nextResourceMap (snd (lookups objs s)) obj = Some h"
  using assms
  by (induction objs arbitrary: s) (simp_all add: case_prod_beta Let_def lookup_keeps_next)

lemma lookups_frameInvariant:
  assumes "frameInvariant s"
  shows "frameInvariant (snd (lookups objs s))"
  using assms
  by (induction objs arbitrary: s) (simp_all add: case_prod_beta Let_def lookup_frameInvariant)

lemma lookups_of_cached:
  assumes "currentResourceMap s obj = Some h"
  shows "lookupsOf obj (fst (lookups objs s)) = replicate (count_list objs obj) (h, False)"
  using assms
proof (induction objs arbitrary: s)
  case Nil
  show ?case by (simp add: lookupsOf_def)
next
  case (Cons obj' objs)
  from Cons.prems
  have kept: "currentResourceMap (snd (getOrCreateVertexResource obj' s)) obj = Some h"
    by (rule lookup_keeps_current)
  from Cons.IH [OF kept]
  have rest: "lookupsOf obj (fst (lookups objs (snd (getOrCreateVertexResource obj' s))))
      = replicate (count_list objs obj) (h, False)" .
  show ?case
  proof (cases "obj' = obj")
    case True
    with Cons.prems rest show ?thesis
      using getOrCreateVertexResource_found [of s obj h]
      by (simp add: lookupsOf_def case_prod_beta Let_def)
  next
    case False
    with rest show ?thesis
      by (simp add: lookupsOf_def case_prod_beta Let_def)
  qed
qed

lemma lookups_first:
  assumes "obj \<in> set objs"
  shows "\<exists>h created k. lookupsOf obj (fst (lookups objs s)) = (h, created) # replicate k (h, False)
      \<and> currentResourceMap (snd (lookups objs s)) obj = Some h"
  using assms
proof (induction objs arbitrary: s)
  case Nil
  then show ?case by simp
next
  case (Cons obj' objs)
  define s1 where "s1 = snd (getOrCreateVertexResource obj' s)"
  show ?case
  proof (cases "obj' = obj")
    case True
    define h where "h = fst (getOrCreateVertexResource obj s)"
    from True have entry: "currentResourceMap s1 obj = Some h"
      by (simp add: s1_def h_def lookup_returns_entry)
    from entry have "lookupsOf obj (fst (lookups objs s1))
        = replicate (count_list objs obj) (h, False)"
      by (rule lookups_of_cached)
    moreover from entry have "currentResourceMap (snd (lookups objs s1)) obj = Some h"
      by (rule lookups_keep_current)
    ultimately show ?thesis
      using True by (simp add: lookupsOf_def case_prod_beta Let_def s1_def h_def)
  next
    case False
    with Cons.prems have "obj \<in> set objs" by simp
    from Cons.IH [OF this, of s1] False show ?thesis
      by (simp add: lookupsOf_def case_prod_beta Let_def s1_def)
  qed
qed

lemma lookups_enter_next:
  assumes "obj \<in> set objs" and "frameInvariant s" and "isCheckingUnusedResources s"
  shows "nextResourceMap (snd (lookups objs s)) obj = currentResourceMap (snd (lookups objs s)) obj"
  using assms
proof (induction objs arbitrary: s)
  case Nil
  then show ?case by simp
next
  case (Cons obj' objs)
  define s1 where "s1 = snd (getOrCreateVertexResource obj' s)"
  from Cons.prems have s1: "frameInvariant s1" "isCheckingUnusedResources s1"
    by (simp_all add: s1_def lookup_frameInvariant)
  show ?case
  proof (cases "obj' = obj")
    case True
    define h where "h = fst (getOrCreateVertexResource obj s)"
    from True Cons.prems have "nextResourceMap s1 obj = Some h" "currentResourceMap s1 obj = Some h"
      by (simp_all add: s1_def h_def lookup_enters_next lookup_returns_entry)
    then have "nextResourceMap (snd (lookups objs s1)) obj = Some h"
      "currentResourceMap (snd (lookups objs s1)) obj = Some h"
      by (simp_all add: lookups_keep_next lookups_keep_current)
    then show ?thesis
      by (simp add: case_prod_beta Let_def s1_def)
  next
    case False
    with Cons.prems have "obj \<in> set objs" by simp
    from Cons.IH [OF this s1] show ?thesis
      by (simp add: case_prod_beta Let_def s1_def)
  qed
qed


text \<open>
  \<^verbatim>\<open>beginRendering\<close> without a clear request makes the valid map the current one and
  leaves the next map empty; \<^verbatim>\<open>endRendering\<close> hands over to the next map when the frame
  has checked for unused resources.
\<close>

lemma beginRendering_cache:
  assumes "cacheInvariant s" and "\<not> isResourceClearRequested s"
  shows "currentResourceMap (beginRendering (s\<lparr>isPicking := p\<rparr>)) = validResourceMap s"
    and "nextResourceMap (beginRendering (s\<lparr>isPicking := p\<rparr>)) = Map.empty"
    and "\<not> hasValidNextResourceMap (beginRendering (s\<lparr>isPicking := p\<rparr>))"
    and "\<not> isResourceClearRequested (beginRendering (s\<lparr>isPicking := p\<rparr>))"
    and "frameInvariant (beginRendering (s\<lparr>isPicking := p\<rparr>))"
    and "(currentResourceMapIndex (beginRendering (s\<lparr>isPicking := p\<rparr>)) = 0 \<or> currentResourceMapIndex (beginRendering (s\<lparr>isPicking := p\<rparr>)) = 1)"
  using assms
  by (auto simp add: beginRendering_def cacheInvariant_def validResourceMap_def
      frameInvariant_def currentResourceMap_def nextResourceMap_def Let_def
      split: if_splits)

lemma endRendering_cache:
  assumes "frameInvariant s" and "\<not> hasValidNextResourceMap s"
    and "(currentResourceMapIndex s = 0 \<or> currentResourceMapIndex s = 1)"
  shows "cacheInvariant (endRendering (s\<lparr>isPicking := False\<rparr>))"
    and "validResourceMap (endRendering (s\<lparr>isPicking := False\<rparr>))
      = (if isCheckingUnusedResources s then nextResourceMap s else currentResourceMap s)"
    and "isResourceClearRequested (endRendering (s\<lparr>isPicking := False\<rparr>))
      = isResourceClearRequested s"
  using assms
  by (auto simp add: endRendering_def cacheInvariant_def validResourceMap_def
      frameInvariant_def currentResourceMap_def nextResourceMap_def index_distinct
      split: if_splits)

text \<open>A frame.\<close>

lemma frame_cacheInvariant:
  assumes "cacheInvariant s" and "\<not> isResourceClearRequested s"
  shows "cacheInvariant (snd (frame f s))"
    and "\<not> isResourceClearRequested (snd (frame f s))"
proof -
  define s1 where "s1 = beginRendering (s\<lparr>isPicking := fst f\<rparr>)"
  define s2 where "s2 = snd (lookups (snd f) s1)"
  from assms have "frameInvariant s1" "\<not> hasValidNextResourceMap s1"
    "\<not> isResourceClearRequested s1" "(currentResourceMapIndex s1 = 0 \<or> currentResourceMapIndex s1 = 1)"
    by (simp_all add: s1_def beginRendering_cache)
  then have s2: "frameInvariant s2" "\<not> hasValidNextResourceMap s2"
    "(currentResourceMapIndex s2 = 0 \<or> currentResourceMapIndex s2 = 1)" "\<not> isResourceClearRequested s2"
    by (simp_all add: s2_def lookups_frameInvariant)
  have "snd (frame f s) = endRendering (s2\<lparr>isPicking := False\<rparr>)"
    by (simp add: frame_def Let_def case_prod_beta s1_def s2_def)
  with s2 show "cacheInvariant (snd (frame f s))"
    and "\<not> isResourceClearRequested (snd (frame f s))"
    by (simp_all add: endRendering_cache [OF s2(1-3)])
qed

lemma frame_valid_entry:
  assumes "cacheInvariant s" and "\<not> isResourceClearRequested s" and "obj \<in> set (snd f)"
  shows "validResourceMap (snd (frame f s)) obj
    = currentResourceMap (snd (lookups (snd f) (beginRendering (s\<lparr>isPicking := fst f\<rparr>)))) obj"
proof -
  define s1 where "s1 = beginRendering (s\<lparr>isPicking := fst f\<rparr>)"
  define s2 where "s2 = snd (lookups (snd f) s1)"
  from assms have s1: "frameInvariant s1" "\<not> hasValidNextResourceMap s1"
    "(currentResourceMapIndex s1 = 0 \<or> currentResourceMapIndex s1 = 1)"
    by (simp_all add: s1_def beginRendering_cache)
  then have s2: "frameInvariant s2" "\<not> hasValidNextResourceMap s2"
    "(currentResourceMapIndex s2 = 0 \<or> currentResourceMapIndex s2 = 1)"
    by (simp_all add: s2_def lookups_frameInvariant)
  have "isCheckingUnusedResources s2 \<Longrightarrow> nextResourceMap s2 obj = currentResourceMap s2 obj"
    using lookups_enter_next [OF assms(3) s1(1)] by (simp add: s2_def)
  with endRendering_cache(2) [OF s2]
  have "validResourceMap (endRendering (s2\<lparr>isPicking := False\<rparr>)) obj = currentResourceMap s2 obj"
    by simp
  moreover have "snd (frame f s) = endRendering (s2\<lparr>isPicking := False\<rparr>)"
    by (simp add: frame_def Let_def case_prod_beta s1_def s2_def)
  ultimately show ?thesis
    by (simp add: s1_def s2_def)
qed

lemma frame_of_cached:
  assumes "cacheInvariant s" and "\<not> isResourceClearRequested s" and "obj \<in> set (snd f)"
    and "validResourceMap s obj = Some h"
  shows "\<exists>k. lookupsOf obj (fst (frame f s)) = replicate k (h, False)"
    and "validResourceMap (snd (frame f s)) obj = Some h"
proof -
  define s1 where "s1 = beginRendering (s\<lparr>isPicking := fst f\<rparr>)"
  from assms have cached: "currentResourceMap s1 obj = Some h"
    by (simp add: s1_def beginRendering_cache)
  have "fst (frame f s) = fst (lookups (snd f) s1)"
    by (simp add: frame_def Let_def case_prod_beta s1_def)
  with lookups_of_cached [OF cached, of "snd f"]
  show "\<exists>k. lookupsOf obj (fst (frame f s)) = replicate k (h, False)"
    by auto
  from lookups_keep_current [OF cached, of "snd f"] frame_valid_entry [OF assms(1-3)]
  show "validResourceMap (snd (frame f s)) obj = Some h"
    by (simp add: s1_def)
qed

lemma frame_first:
  assumes "cacheInvariant s" and "\<not> isResourceClearRequested s" and "obj \<in> set (snd f)"
  shows "\<exists>h created k. lookupsOf obj (fst (frame f s)) = (h, created) # replicate k (h, False)
      \<and> validResourceMap (snd (frame f s)) obj = Some h"
proof -
  define s1 where "s1 = beginRendering (s\<lparr>isPicking := fst f\<rparr>)"
  have "fst (frame f s) = fst (lookups (snd f) s1)"
    by (simp add: frame_def Let_def case_prod_beta s1_def)
  with lookups_first [OF assms(3), of s1] frame_valid_entry [OF assms]
  show ?thesis
    by (simp add: s1_def)
qed

text \<open>A sequence of frames.\<close>

lemma lookupsOf_append: "lookupsOf obj (xs @ ys) = lookupsOf obj xs @ lookupsOf obj ys"
  by (simp add: lookupsOf_def)

lemma frames_of_cached:
  assumes "cacheInvariant s" and "\<not> isResourceClearRequested s"
    and "\<forall>f\<in>set fs. obj \<in> set (snd f)" and "validResourceMap s obj = Some h"
  shows "\<exists>k. lookupsOf obj (fst (frames fs s)) = replicate k (h, False)"
  using assms
proof (induction fs arbitrary: s)
  case Nil
  show ?case by (simp add: lookupsOf_def)
next
  case (Cons f fs)
  define s1 where "s1 = snd (frame f s)"
  from Cons.prems have f: "obj \<in> set (snd f)" and fs: "\<forall>f\<in>set fs. obj \<in> set (snd f)"
    by simp_all
  from Cons.prems(1,2) have s1: "cacheInvariant s1" "\<not> isResourceClearRequested s1"
    by (simp_all add: s1_def frame_cacheInvariant)
  from frame_of_cached [OF Cons.prems(1,2) f Cons.prems(4)]
  obtain k where k: "lookupsOf obj (fst (frame f s)) = replicate k (h, False)"
    and h: "validResourceMap s1 obj = Some h"
    by (auto simp add: s1_def)
  from Cons.IH [OF s1 fs h]
  obtain k' where "lookupsOf obj (fst (frames fs s1)) = replicate k' (h, False)" ..
  with k have "lookupsOf obj (fst (frames (f # fs) s)) = replicate (k + k') (h, False)"
    by (simp add: case_prod_beta Let_def lookupsOf_append s1_def replicate_add)
  then show ?case ..
qed

text \<open>
  \<open>cacheInvariant\<close> holds between the frames of every run of the renderer:
  \<^verbatim>\<open>initialize\<close> establishes it, and a frame, a clear request and
  \<^verbatim>\<open>enableUnusedResourceCheck\<close> keep it.
\<close>

lemma cacheInvariant_initialize: "cacheInvariant initialize"
  by (simp add: cacheInvariant_def initialize_def nextResourceMap_def)

lemma cacheInvariant_requestToClearResources:
  assumes "cacheInvariant s"
  shows "cacheInvariant (requestToClearResources s)"
  using assms
  by (auto simp add: cacheInvariant_def requestToClearResources_def currentResourceMap_def
      nextResourceMap_def split: if_splits)

lemma cacheInvariant_enableUnusedResourceCheck:
  assumes "cacheInvariant s"
  shows "cacheInvariant (enableUnusedResourceCheck on s)"
  using assms
  by (auto simp add: cacheInvariant_def enableUnusedResourceCheck_def currentResourceMap_def
      nextResourceMap_def index_distinct split: if_splits)

lemma beginRendering_frameInvariant:
  assumes "cacheInvariant s"
  shows "frameInvariant (beginRendering (s\<lparr>isPicking := p\<rparr>))"
    and "\<not> hasValidNextResourceMap (beginRendering (s\<lparr>isPicking := p\<rparr>))"
    and "(currentResourceMapIndex (beginRendering (s\<lparr>isPicking := p\<rparr>)) = 0 \<or> currentResourceMapIndex (beginRendering (s\<lparr>isPicking := p\<rparr>)) = 1)"
  using assms
  by (auto simp add: beginRendering_def cacheInvariant_def frameInvariant_def
      currentResourceMap_def nextResourceMap_def Let_def split: if_splits)

lemma cacheInvariant_frame:
  assumes "cacheInvariant s"
  shows "cacheInvariant (snd (frame f s))"
proof -
  define s2 where "s2 = snd (lookups (snd f) (beginRendering (s\<lparr>isPicking := fst f\<rparr>)))"
  from assms have s2: "frameInvariant s2" "\<not> hasValidNextResourceMap s2"
    "(currentResourceMapIndex s2 = 0 \<or> currentResourceMapIndex s2 = 1)"
    by (simp_all add: s2_def lookups_frameInvariant beginRendering_frameInvariant)
  have "snd (frame f s) = endRendering (s2\<lparr>isPicking := False\<rparr>)"
    by (simp add: frame_def Let_def case_prod_beta s2_def)
  then show ?thesis
    by (simp add: endRendering_cache [OF s2])
qed

lemma cacheInvariant_exampleStart:
  shows "cacheInvariant exampleStart" and "\<not> isResourceClearRequested exampleStart"
  using cacheInvariant_frame [OF cacheInvariant_initialize, of "(False, [])"]
  by (simp_all add: exampleStart_def frame_def initialize_def beginRendering_def
      endRendering_def Let_def)

text \<open>
  Claim C1. Take a renderer between two frames, with no clear request pending, and a
  sequence of frames, rendering or picking ones, each of which looks the object up.
  Then all the lookups of the object return one and the same resource, and none after
  the first creates a resource. (This holds with the check for unused resources enabled
  as well as disabled; \<open>cacheInvariant\<close> holds whenever the renderer is between two
  frames.)
\<close>

theorem getOrCreateVertexResource_same_across_frames:
  assumes "cacheInvariant s" and "\<not> isResourceClearRequested s"
    and "fs \<noteq> []" and "\<forall>f\<in>set fs. obj \<in> set (snd f)"
  shows "\<exists>h created k.
    lookupsOf obj (fst (frames fs s)) = (h, created) # replicate k (h, False)"
proof -
  from assms(3) obtain f rest where fs: "fs = f # rest"
    by (cases fs) auto
  define s1 where "s1 = snd (frame f s)"
  from assms(4) fs have f: "obj \<in> set (snd f)" and rest: "\<forall>f\<in>set rest. obj \<in> set (snd f)"
    by simp_all
  from assms(1,2) have s1: "cacheInvariant s1" "\<not> isResourceClearRequested s1"
    by (simp_all add: s1_def frame_cacheInvariant)
  from frame_first [OF assms(1,2) f]
  obtain h created k
    where first: "lookupsOf obj (fst (frame f s)) = (h, created) # replicate k (h, False)"
      and h: "validResourceMap s1 obj = Some h"
    by (auto simp add: s1_def)
  from frames_of_cached [OF s1 rest h]
  obtain k' where "lookupsOf obj (fst (frames rest s1)) = replicate k' (h, False)" ..
  with first have "lookupsOf obj (fst (frames fs s)) = (h, created) # replicate (k + k') (h, False)"
    by (simp add: fs case_prod_beta Let_def lookupsOf_append s1_def replicate_add)
  then show ?thesis by blast
qed


theorem getOrCreateVertexResource_same_across_frames_witness:
  "(\<exists>h created k.
      lookupsOf (SceneObject 0)
        (fst (frames [(False, [SceneObject 0, SceneObject 1]), (True, [SceneObject 0]),
                      (False, [SceneObject 1, SceneObject 0, SceneObject 0])] exampleStart))
      = (h, created) # replicate k (h, False))
   \<and> lookupsOf (SceneObject 0)
        (fst (frames [(False, [SceneObject 0, SceneObject 1]), (True, [SceneObject 0]),
                      (False, [SceneObject 1, SceneObject 0, SceneObject 0])] exampleStart))
      = [(0, True), (0, False), (0, False), (0, False)]"
proof -
  have "lookupsOf (SceneObject 0)
        (fst (frames [(False, [SceneObject 0, SceneObject 1]), (True, [SceneObject 0]),
                      (False, [SceneObject 1, SceneObject 0, SceneObject 0])] exampleStart))
      = [(0, True), (0, False), (0, False), (0, False)]"
    by code_simp
  moreover from getOrCreateVertexResource_same_across_frames
      [OF cacheInvariant_exampleStart(1) cacheInvariant_exampleStart(2),
       where fs = "[(False, [SceneObject 0, SceneObject 1]), (True, [SceneObject 0]),
            (False, [SceneObject 1, SceneObject 0, SceneObject 0])]" and obj = "SceneObject 0"]
  have "\<exists>h created k.
      lookupsOf (SceneObject 0)
        (fst (frames [(False, [SceneObject 0, SceneObject 1]), (True, [SceneObject 0]),
                      (False, [SceneObject 1, SceneObject 0, SceneObject 0])] exampleStart))
      = (h, created) # replicate k (h, False)"
    by simp
  ultimately show ?thesis
    by (rule_tac conjI)
qed

end
